theory Spec2Isabelle
  imports Main "HOL-Library.Word"
begin

unbundle bit_operations_syntax

section \<open>The multi-channel DDS top level (module \<open>dds_top\<close>)\<close>

text \<open>
  The module is a synchronous circuit with one clock. A state of the model holds the
  value of every register during one clock cycle; \<open>tick\<close> is the effect of one rising
  clock edge, computed from the register values and the port values of that cycle.
  Wires (\<open>assign\<close>) are functions of the current state and inputs.

  Three sub-modules are instantiated by \<open>dds_top\<close> but are not part of the given
  sources: \<open>phase_ctrl\<close>, the vendor oscillator core \<open>dds_compiler_0\<close> and
  \<open>latency_reg\<close>. The first two are taken as parameters (an arbitrary state type with
  a next-state and an output function over exactly the ports that \<open>dds_top\<close>
  connects); the third is modelled from the specification.
\<close>

subsection \<open>Ports\<close>

text \<open>The input ports sampled at one clock edge (\<open>clk\<close> itself is the tick).\<close>

record ports =
  rstn :: bool
  PINC_REG :: "32 word"
  GAIN_REG :: "16 word"
  WE_REG :: bool

subsection \<open>The sub-modules that are parameters\<close>

text \<open>
  \<open>N_DDS\<close> is the module parameter. \<open>phase_ctrl_i\<close> is connected to \<open>rstn\<close>,
  \<open>PINC_REG\<close> and \<open>WE_REG\<close> and drives the \<open>N_DDS*72\<close>-bit bus \<open>dds_ctrl_int\<close>
  (a natural number here, since its width depends on the parameter). Each \<open>dds_i\<close>
  is connected to \<open>s_axis_phase_tvalid\<close> and \<open>s_axis_phase_tdata\<close> only and drives
  \<open>m_axis_data_tdata\<close>; it has no reset port.
\<close>

record ('p, 'o) design =
  N_DDS :: nat
  phase_ctrl_next :: "bool \<Rightarrow> 32 word \<Rightarrow> bool \<Rightarrow> 'p \<Rightarrow> 'p"
  phase_ctrl_out :: "bool \<Rightarrow> 32 word \<Rightarrow> bool \<Rightarrow> 'p \<Rightarrow> nat"
  dds_next :: "bool \<Rightarrow> 72 word \<Rightarrow> 'o \<Rightarrow> 'o"
  dds_out :: "bool \<Rightarrow> 72 word \<Rightarrow> 'o \<Rightarrow> 32 word"

subsection \<open>The latency register\<close>

text \<open>
  Modelled from the spec: the module \<open>latency_reg\<close> (instantiated with \<open>N = 4\<close>,
  \<open>B = 32\<close>) is missing from the sources. The specification describes it as a
  fixed-depth shift-register delay whose registers clear to zero on reset. The state is
  the list of the \<open>N\<close> stage registers, newest first; the output is the oldest one.
\<close>

definition latency_reg_N :: nat where
  "latency_reg_N = 4"

text \<open>
  Modelled from the spec: one clock edge of \<open>latency_reg\<close> (missing from the
  sources). Reset clears every stage; otherwise \<open>din\<close> is shifted in and the oldest
  stage is dropped.
\<close>

definition latency_reg_tick :: "bool \<Rightarrow> 32 word \<Rightarrow> 32 word list \<Rightarrow> 32 word list" where
  "latency_reg_tick rst_n din shift_r =
     (if \<not> rst_n then replicate latency_reg_N 0 else din # butlast shift_r)"

text \<open>
  Modelled from the spec: the output \<open>dout\<close> of \<open>latency_reg\<close> (missing from the
  sources) is its last stage.
\<close>

definition latency_reg_dout :: "32 word list \<Rightarrow> 32 word" where
  "latency_reg_dout shift_r = last shift_r"

subsection \<open>The gain multiplier\<close>

text \<open>
  \<open>prod_real[i] = prod_a_real[i]*gain\<close> with both operands declared
  \<open>signed [15:0]\<close> and a \<open>signed [31:0]\<close> target: both operands are sign-extended
  to 32 bits and multiplied modulo \<open>2^32\<close>.
\<close>

definition signed_mult :: "16 word \<Rightarrow> 16 word \<Rightarrow> 32 word" where
  "signed_mult a g = (scast a :: 32 word) * (scast g :: 32 word)"

text \<open>The part select \<open>[30 -: 16]\<close>: bits 30 down to 15.\<close>

definition bits_30_15 :: "32 word \<Rightarrow> 16 word" where
  "bits_30_15 r = ucast (drop_bit 15 r)"

text \<open>The part selects \<open>[15:0]\<close> and \<open>[31:16]\<close> of a 32-bit word.\<close>

definition bits_15_0 :: "32 word \<Rightarrow> 16 word" where
  "bits_15_0 w = ucast w"

definition bits_31_16 :: "32 word \<Rightarrow> 16 word" where
  "bits_31_16 w = ucast (drop_bit 16 w)"

text \<open>The concatenation \<open>{hi, lo}\<close> of two 16-bit values.\<close>

definition concat16 :: "16 word \<Rightarrow> 16 word \<Rightarrow> 32 word" where
  "concat16 hi lo = push_bit 16 (ucast hi) OR ucast lo"

subsection \<open>One generated channel (\<open>GEN_dds[i]\<close>)\<close>

record 'o channel =
  dds_i :: 'o
  dds_dout_latency_reg_i :: "32 word list"
  prod_real_r1 :: "32 word"
  prod_imag_r1 :: "32 word"
  prod_r1 :: "32 word"

text \<open>The wires of a channel.\<close>

definition dds_dout_la :: "'o channel \<Rightarrow> 32 word" where
  "dds_dout_la c = latency_reg_dout (dds_dout_latency_reg_i c)"

definition prod_a_real :: "'o channel \<Rightarrow> 16 word" where
  "prod_a_real c = bits_15_0 (dds_dout_la c)"

definition prod_a_imag :: "'o channel \<Rightarrow> 16 word" where
  "prod_a_imag c = bits_31_16 (dds_dout_la c)"

definition prod_real :: "16 word \<Rightarrow> 'o channel \<Rightarrow> 32 word" where
  "prod_real gain c = signed_mult (prod_a_real c) gain"

definition prod_imag :: "16 word \<Rightarrow> 'o channel \<Rightarrow> 32 word" where
  "prod_imag gain c = signed_mult (prod_a_imag c) gain"

definition prod_real_q :: "'o channel \<Rightarrow> 16 word" where
  "prod_real_q c = bits_30_15 (prod_real_r1 c)"

definition prod_imag_q :: "'o channel \<Rightarrow> 16 word" where
  "prod_imag_q c = bits_30_15 (prod_imag_r1 c)"

definition prod :: "'o channel \<Rightarrow> 32 word" where
  "prod c = concat16 (prod_imag_q c) (prod_real_q c)"

text \<open>
  One clock edge of a channel. \<open>tvalid\<close> and \<open>tdata\<close> are the values of
  \<open>dds_tvalid_r\<close> and \<open>dds_ctrl_int_r[i*72 +: 72]\<close> in this cycle, \<open>gain\<close> is the wire
  \<open>gain = GAIN_REG\<close>. The oscillator is clocked without a reset.
\<close>

definition GEN_dds_tick ::
  "('p, 'o) design \<Rightarrow> bool \<Rightarrow> bool \<Rightarrow> 72 word \<Rightarrow> 16 word \<Rightarrow> 'o channel \<Rightarrow> 'o channel" where
  "GEN_dds_tick D rst_n tvalid tdata gain c =
     \<lparr> dds_i = dds_next D tvalid tdata (dds_i c),
       dds_dout_latency_reg_i =
         latency_reg_tick rst_n (dds_out D tvalid tdata (dds_i c)) (dds_dout_latency_reg_i c),
       prod_real_r1 = (if \<not> rst_n then 0 else prod_real gain c),
       prod_imag_r1 = (if \<not> rst_n then 0 else prod_imag gain c),
       prod_r1 = (if \<not> rst_n then 0 else prod c) \<rparr>"

subsection \<open>The top level\<close>

record ('p, 'o) dds_top =
  phase_ctrl_i :: 'p
  dds_tvalid_r :: bool
  dds_ctrl_int_r :: nat
  GEN_dds :: "'o channel list"

text \<open>The slice \<open>[i*72 +: 72]\<close> of the control bus and \<open>[i*32 +: 32]\<close> of the output bus.\<close>

definition slice72 :: "nat \<Rightarrow> nat \<Rightarrow> 72 word" where
  "slice72 i bus = word_of_nat (drop_bit (i * 72) bus)"

definition slice32 :: "nat \<Rightarrow> nat \<Rightarrow> 32 word" where
  "slice32 i bus = word_of_nat (drop_bit (i * 32) bus)"

text \<open>
  The output bus: channel \<open>i\<close> drives \<open>dds_dout_o[i*32 +: 32]\<close>, so the bus is the
  concatenation of the channel words with channel 0 in the lowest bits.
\<close>

fun concat_bus32 :: "32 word list \<Rightarrow> nat" where
  "concat_bus32 [] = 0"
| "concat_bus32 (w # ws) = unat w + 2 ^ 32 * concat_bus32 ws"

definition dds_dout_o :: "('p, 'o) dds_top \<Rightarrow> nat" where
  "dds_dout_o s = concat_bus32 (map prod_r1 (GEN_dds s))"

text \<open>The wire \<open>dds_ctrl_int\<close>, the \<open>N_DDS*72\<close>-bit output of \<open>phase_ctrl_i\<close>.\<close>

definition dds_ctrl_int :: "('p, 'o) design \<Rightarrow> ports \<Rightarrow> ('p, 'o) dds_top \<Rightarrow> nat" where
  "dds_ctrl_int D p s =
     take_bit (N_DDS D * 72) (phase_ctrl_out D (rstn p) (PINC_REG p) (WE_REG p) (phase_ctrl_i s))"

text \<open>One clock edge of the whole module.\<close>

definition tick :: "('p, 'o) design \<Rightarrow> ports \<Rightarrow> ('p, 'o) dds_top \<Rightarrow> ('p, 'o) dds_top" where
  "tick D p s =
     \<lparr> phase_ctrl_i = phase_ctrl_next D (rstn p) (PINC_REG p) (WE_REG p) (phase_ctrl_i s),
       dds_tvalid_r = (if \<not> rstn p then False else True),
       dds_ctrl_int_r = (if \<not> rstn p then 0 else dds_ctrl_int D p s),
       GEN_dds =
         map (\<lambda>(i, c). GEN_dds_tick D (rstn p) (dds_tvalid_r s)
                          (slice72 i (dds_ctrl_int_r s)) (GAIN_REG p) c)
             (enumerate 0 (GEN_dds s)) \<rparr>"

text \<open>Running the module over the port values of consecutive cycles.\<close>

fun run :: "('p, 'o) design \<Rightarrow> ports list \<Rightarrow> ('p, 'o) dds_top \<Rightarrow> ('p, 'o) dds_top" where
  "run D [] s = s"
| "run D (p # ps) s = run D ps (tick D p s)"

text \<open>The states in which the successive clock edges of a run happen.\<close>

fun states :: "('p, 'o) design \<Rightarrow> ports list \<Rightarrow> ('p, 'o) dds_top \<Rightarrow> ('p, 'o) dds_top list" where
  "states D [] s = []"
| "states D (p # ps) s = s # states D ps (tick D p s)"

text \<open>The output frames of a run: the output bus after each clock edge.\<close>

fun frames :: "('p, 'o) design \<Rightarrow> ports list \<Rightarrow> ('p, 'o) dds_top \<Rightarrow> nat list" where
  "frames D [] s = []"
| "frames D (p # ps) s = dds_dout_o (tick D p s) # frames D ps (tick D p s)"

text \<open>The wire \<open>dds_dout[i]\<close>, the oscillator output of channel \<open>i\<close> in a state.\<close>

definition dds_dout :: "('p, 'o) design \<Rightarrow> nat \<Rightarrow> ('p, 'o) dds_top \<Rightarrow> 32 word" where
  "dds_dout D i s =
     dds_out D (dds_tvalid_r s) (slice72 i (dds_ctrl_int_r s)) (dds_i (GEN_dds s ! i))"

text \<open>
  The control words \<open>dds_ctrl_int_r[i*72 +: 72]\<close> presented to oscillator \<open>i\<close> in the
  successive cycles of a run.
\<close>

definition dds_ctrl_stream ::
  "('p, 'o) design \<Rightarrow> nat \<Rightarrow> ports list \<Rightarrow> ('p, 'o) dds_top \<Rightarrow> 72 word list" where
  "dds_ctrl_stream D i ps s = map (\<lambda>s'. slice72 i (dds_ctrl_int_r s')) (states D ps s)"

subsection \<open>A reference instance of the missing sub-modules\<close>

text \<open>
  Modelled from the spec: \<open>phase_ctrl\<close> is missing from the sources. The specification
  says that on \<open>write_enable\<close> the supplied increment is captured into a holding
  register and takes effect the following cycle, that it is held otherwise, that it is
  zero at reset, and that one control word per channel is emitted per cycle. The
  instance sends the held increment, as bits 31..0 of the 72-bit word, to every channel.
\<close>

definition ref_phase_ctrl_next :: "bool \<Rightarrow> 32 word \<Rightarrow> bool \<Rightarrow> 32 word \<Rightarrow> 32 word" where
  "ref_phase_ctrl_next rst_n pinc we held =
     (if \<not> rst_n then 0 else if we then pinc else held)"

text \<open>
  Modelled from the spec: the fan-out inside \<open>phase_ctrl\<close> (missing from the sources),
  one 72-bit control word per channel, here the same word for each.
\<close>

fun fan_out72 :: "nat \<Rightarrow> 32 word \<Rightarrow> nat" where
  "fan_out72 0 w = 0"
| "fan_out72 (Suc n) w = unat w + 2 ^ 72 * fan_out72 n w"

text \<open>
  Modelled from the spec: the output \<open>dds_ctrl_o\<close> of \<open>phase_ctrl\<close> (missing from the
  sources) re-emits the held increment every cycle.
\<close>

definition ref_phase_ctrl_out :: "nat \<Rightarrow> bool \<Rightarrow> 32 word \<Rightarrow> bool \<Rightarrow> 32 word \<Rightarrow> nat" where
  "ref_phase_ctrl_out n rst_n pinc we held = fan_out72 n held"

text \<open>
  Modelled from the spec: \<open>dds_compiler_0\<close> is a vendor core that is missing from the
  sources. The specification gives it one phase accumulator, advanced on every valid
  cycle by the current increment modulo \<open>2^32\<close>, a pipeline latency of 10 cycles, and
  a quadrature output \<open>{imag, real}\<close> of full scale 32767; the phase-to-amplitude
  mapping is left open. The instance maps the quadrant of the phase (its two top bits)
  to the exact values of cosine and sine at the quarter turns.
\<close>

record ref_osc =
  phase_acc :: "32 word"
  pipe :: "32 word list"

text \<open>
  Modelled from the spec: a phase-to-amplitude mapping for \<open>dds_compiler_0\<close> (missing
  from the sources), \<open>{imag, real} = 32767 * {sin, cos}\<close> at the quarter turns.
\<close>

definition quadrant_sample :: "32 word \<Rightarrow> 32 word" where
  "quadrant_sample ph =
     (let q = unat (drop_bit 30 ph) in
      if q = 0 then concat16 0 0x7FFF
      else if q = 1 then concat16 0x7FFF 0
      else if q = 2 then concat16 0 0x8001
      else concat16 0x8001 0)"

text \<open>
  Modelled from the spec: one clock edge of \<open>dds_compiler_0\<close> (missing from the
  sources). On a valid cycle the accumulator advances by bits 31..0 of the control word
  and the new sample enters the ten-stage pipeline; otherwise the core holds.
\<close>

definition ref_dds_next :: "bool \<Rightarrow> 72 word \<Rightarrow> ref_osc \<Rightarrow> ref_osc" where
  "ref_dds_next tvalid tdata st =
     (if tvalid
      then (let a = phase_acc st + ucast tdata
            in \<lparr> phase_acc = a, pipe = quadrant_sample a # butlast (pipe st) \<rparr>)
      else st)"

text \<open>
  Modelled from the spec: the output \<open>m_axis_data_tdata\<close> of \<open>dds_compiler_0\<close>
  (missing from the sources) is the last stage of its pipeline.
\<close>

definition ref_dds_out :: "bool \<Rightarrow> 72 word \<Rightarrow> ref_osc \<Rightarrow> 32 word" where
  "ref_dds_out tvalid tdata st = last (pipe st)"

text \<open>The reference instance with \<open>n\<close> channels.\<close>

definition ref_design :: "nat \<Rightarrow> (32 word, ref_osc) design" where
  "ref_design n =
     \<lparr> N_DDS = n,
       phase_ctrl_next = ref_phase_ctrl_next,
       phase_ctrl_out = ref_phase_ctrl_out n,
       dds_next = ref_dds_next,
       dds_out = ref_dds_out \<rparr>"

text \<open>The state of the reference instance with every register zero.\<close>

definition ref_zero :: "nat \<Rightarrow> (32 word, ref_osc) dds_top" where
  "ref_zero n =
     \<lparr> phase_ctrl_i = 0,
       dds_tvalid_r = False,
       dds_ctrl_int_r = 0,
       GEN_dds = replicate n
         \<lparr> dds_i = \<lparr> phase_acc = 0, pipe = replicate 10 0 \<rparr>,
           dds_dout_latency_reg_i = replicate latency_reg_N 0,
           prod_real_r1 = 0,
           prod_imag_r1 = 0,
           prod_r1 = 0 \<rparr> \<rparr>"

text \<open>Port values: reset asserted, and normal operation with given register values.\<close>

definition in_reset :: ports where
  "in_reset = \<lparr> rstn = False, PINC_REG = 0, GAIN_REG = 0, WE_REG = False \<rparr>"

definition operate :: "32 word \<Rightarrow> 16 word \<Rightarrow> bool \<Rightarrow> ports" where
  "operate pinc gain we = \<lparr> rstn = True, PINC_REG = pinc, GAIN_REG = gain, WE_REG = we \<rparr>"

text \<open>
  A state of the reference instance in steady operation: the one reached from the zero
  state by one cycle of reset and twenty cycles with increment \<open>2^28\<close> (a sixteenth
  of a turn per cycle) and gain \<open>0x4000\<close> (one half).
\<close>

definition ref_steady :: "(32 word, ref_osc) dds_top" where
  "ref_steady =
     \<lparr> phase_ctrl_i = 0x10000000,
       dds_tvalid_r = True,
       dds_ctrl_int_r = 0x10000000 + 2 ^ 72 * 0x10000000,
       GEN_dds = replicate 2
         \<lparr> dds_i = \<lparr> phase_acc = 0x20000000,
                     pipe = [0x00007FFF, 0x00007FFF, 0x00007FFF, 0x80010000, 0x80010000,
                             0x80010000, 0x80010000, 0x00008001, 0x00008001, 0x00008001] \<rparr>,
           dds_dout_latency_reg_i = [0x00008001, 0x7FFF0000, 0x7FFF0000, 0x7FFF0000],
           prod_real_r1 = 0,
           prod_imag_r1 = 0x1FFFC000,
           prod_r1 = 0x00003FFF \<rparr> \<rparr>"

text \<open>
  A second state of the reference instance: channel 0 as in the steady state, channel 1
  and its control word different.
\<close>

definition ref_other :: "(32 word, ref_osc) dds_top" where
  "ref_other =
     \<lparr> phase_ctrl_i = 0x10000000,
       dds_tvalid_r = True,
       dds_ctrl_int_r = 0x10000000 + 2 ^ 72 * 0x55555555,
       GEN_dds =
         [GEN_dds ref_steady ! 0,
          \<lparr> dds_i = \<lparr> phase_acc = 0x12345678, pipe = replicate 10 0x7FFF0000 \<rparr>,
            dds_dout_latency_reg_i = replicate 4 0x00007FFF,
            prod_real_r1 = 0x1FFFC000,
            prod_imag_r1 = 0,
            prod_r1 = 0x3FFF0000 \<rparr>] \<rparr>"

text \<open>
  A state in which the delayed sample of channel 0 is \<open>{-32768, -32768}\<close>, the most
  negative value in both components.
\<close>

definition ref_corner :: "(32 word, ref_osc) dds_top" where
  "ref_corner =
     \<lparr> phase_ctrl_i = 0x10000000,
       dds_tvalid_r = True,
       dds_ctrl_int_r = 0x10000000 + 2 ^ 72 * 0x10000000,
       GEN_dds = replicate 2
         \<lparr> dds_i = \<lparr> phase_acc = 0x20000000, pipe = replicate 10 0x00007FFF \<rparr>,
           dds_dout_latency_reg_i = [0x00007FFF, 0x00007FFF, 0x00007FFF, 0x80008000],
           prod_real_r1 = 0,
           prod_imag_r1 = 0,
           prod_r1 = 0 \<rparr> \<rparr>"

subsection \<open>Well-formed states\<close>


section \<open>Arithmetic of the gain stage\<close>

lemma signed_mult_int: "signed_mult a g = word_of_int (sint a * sint g)"
  unfolding signed_mult_def by (simp only: scast_eq wi_hom_mult)

lemma uint_bits_30_15: "uint (bits_30_15 (word_of_int p)) = (p div 2 ^ 15) mod 2 ^ 16"
proof -
  have "uint (bits_30_15 (word_of_int p)) = take_bit 16 (drop_bit 15 (take_bit 32 p))"
    unfolding bits_30_15_def
    by (simp add: unsigned_ucast_eq unsigned_drop_bit_eq uint_word_of_int take_bit_eq_mod)
  also have "\<dots> = take_bit 16 (drop_bit 15 p)"
    by (simp add: drop_bit_take_bit)
  finally show ?thesis
    by (simp add: take_bit_eq_mod drop_bit_eq_div)
qed

lemma bits_15_0_concat16: "bits_15_0 (concat16 hi lo) = lo"
  unfolding bits_15_0_def concat16_def
  by (rule bit_word_eqI) (auto simp add: bit_simps)

lemma bits_31_16_concat16: "bits_31_16 (concat16 hi lo) = hi"
  unfolding bits_31_16_def concat16_def
  by (rule bit_word_eqI) (auto simp add: bit_simps dest: bit_imp_le_length)

lemma concat16_bits: "concat16 (bits_31_16 w) (bits_15_0 w) = w"
  unfolding bits_31_16_def bits_15_0_def concat16_def
  by (rule bit_word_eqI) (auto simp add: bit_simps)

lemma sint_bits_30_15:
  "sint (bits_30_15 (word_of_int p)) = signed_take_bit 15 (p div 2 ^ 15)"
proof -
  have "sint (bits_30_15 (word_of_int p)) = signed_take_bit 15 (uint (bits_30_15 (word_of_int p)))"
    by (simp add: sint_uint)
  also have "\<dots> = signed_take_bit 15 (take_bit 16 (p div 2 ^ 15))"
    by (simp only: uint_bits_30_15 take_bit_eq_mod)
  also have "\<dots> = signed_take_bit 15 (p div 2 ^ 15)"
    by (simp add: signed_take_bit_take_bit)
  finally show ?thesis .
qed

lemma sint16_min_iff: "(sint (a :: 16 word) = - 32768) = (a = 0x8000)"
proof
  assume "sint a = - 32768"
  then have "sint a = sint (0x8000 :: 16 word)" by simp
  then show "a = 0x8000" by (rule signed_word_eqI)
next
  assume "a = 0x8000"
  then show "sint a = - 32768" by simp
qed

lemma abs_sint16: "\<bar>sint (a :: 16 word)\<bar> \<le> 32768"
  using sint_ge[of a] sint_lt[of a] by simp

lemma abs_sint16_strict: "a \<noteq> 0x8000 \<Longrightarrow> \<bar>sint (a :: 16 word)\<bar> \<le> 32767"
  using sint_ge[of a] sint_lt[of a] sint16_min_iff[of a] by simp

lemma product_range:
  fixes a g :: "16 word"
  assumes "\<not> (a = 0x8000 \<and> g = 0x8000)"
  shows "\<bar>sint a * sint g\<bar> < 2 ^ 30"
proof (cases "a = 0x8000")
  case False
  have "\<bar>sint a\<bar> * \<bar>sint g\<bar> \<le> 32767 * 32768"
    by (rule mult_mono[OF abs_sint16_strict[OF False] abs_sint16]) simp_all
  then show ?thesis by (simp add: abs_mult)
next
  case True
  with assms have "g \<noteq> 0x8000" by simp
  have "\<bar>sint a\<bar> * \<bar>sint g\<bar> \<le> 32768 * 32767"
    by (rule mult_mono[OF abs_sint16 abs_sint16_strict[OF \<open>g \<noteq> 0x8000\<close>]]) simp_all
  then show ?thesis by (simp add: abs_mult)
qed

lemma bits_30_15_no_wrap:
  fixes a g :: "16 word"
  assumes "\<not> (a = 0x8000 \<and> g = 0x8000)"
  shows "sint (bits_30_15 (signed_mult a g)) = (sint a * sint g) div 2 ^ 15"
proof -
  let ?p = "sint a * sint g"
  have r: "- (2 ^ 30) \<le> ?p" "?p < 2 ^ 30"
    using product_range[OF assms] by simp_all
  have "- (2 ^ 15) \<le> ?p div 2 ^ 15" "?p div 2 ^ 15 < 2 ^ 15"
    using r by simp_all
  then have "signed_take_bit 15 (?p div 2 ^ 15) = ?p div 2 ^ 15"
    by (simp only: signed_take_bit_int_eq_self)
  then show ?thesis
    by (simp only: signed_mult_int sint_bits_30_15)
qed

lemma corner_case_values: "bits_30_15 (signed_mult 0x8000 0x8000) = 0x8000"
  "sint (bits_30_15 (signed_mult 0x8000 0x8000)) = - 32768"
  "(sint (0x8000 :: 16 word) * sint (0x8000 :: 16 word)) div 2 ^ 15 = 32768"
  "signed_mult 0x8000 0x8000 = 0x40000000"
    by (simp_all add: bits_30_15_def signed_mult_def)

section \<open>Evaluating the reference instance\<close>

lemmas ref_eval =
  ref_design_def ref_zero_def tick_def GEN_dds_tick_def in_reset_def operate_def
  latency_reg_tick_def latency_reg_N_def latency_reg_dout_def dds_ctrl_int_def
  ref_phase_ctrl_next_def ref_phase_ctrl_out_def ref_dds_next_def ref_dds_out_def
  slice72_def slice32_def prod_def prod_real_def prod_imag_def prod_real_q_def prod_imag_q_def
  prod_a_real_def prod_a_imag_def dds_dout_la_def bits_30_15_def bits_15_0_def bits_31_16_def
  concat16_def signed_mult_def quadrant_sample_def dds_dout_o_def dds_dout_def
  enumerate_eq_zip drop_bit_eq_div take_bit_eq_mod Let_def

lemma replicate_2: "replicate 2 x = [x, x]"
  by (simp add: numeral_2_eq_2)

lemma replicate_4: "replicate 4 x = [x, x, x, x]"
  by (simp add: eval_nat_numeral)

lemma replicate_10: "replicate 10 x = [x, x, x, x, x, x, x, x, x, x]"
  by (simp add: eval_nat_numeral)

lemma fan_out72_2: "fan_out72 2 w = unat w + 2 ^ 72 * unat w"
  by (simp add: numeral_2_eq_2)

lemmas ref_lists = replicate_2 replicate_4 replicate_10 fan_out72_2

text \<open>The steady state is reached from the zero state.\<close>

lemma ref_steady_reachable:
  "run (ref_design 2) (in_reset # replicate 10 (operate 0x10000000 0x4000 True)
                               @ replicate 10 (operate 0x10000000 0x4000 False))
       (ref_zero 2) = ref_steady"
  by (simp add: ref_steady_def ref_eval ref_lists)

section \<open>Structure of a clock edge and of a run\<close>

lemma length_GEN_dds_tick: "length (GEN_dds (tick D p s)) = length (GEN_dds s)"
  by (simp add: tick_def)

lemma nth_GEN_dds_tick:
  "i < length (GEN_dds s) \<Longrightarrow>
   GEN_dds (tick D p s) ! i =
     GEN_dds_tick D (rstn p) (dds_tvalid_r s) (slice72 i (dds_ctrl_int_r s)) (GAIN_REG p)
       (GEN_dds s ! i)"
  by (simp add: tick_def nth_enumerate_eq)

lemma concat_bus32_bound: "concat_bus32 ws < 2 ^ (32 * length ws)"
proof (induction ws)
  case Nil
  show ?case by simp
next
  case (Cons w ws)
  have "unat w < 2 ^ 32" using unsigned_less[of w] by simp
  moreover have "concat_bus32 ws + 1 \<le> 2 ^ (32 * length ws)" using Cons.IH by simp
  then have "2 ^ 32 * (concat_bus32 ws + 1) \<le> (2::nat) ^ 32 * 2 ^ (32 * length ws)"
    by (rule mult_le_mono2)
  ultimately show ?case by (simp add: power_add)
qed

lemma slice32_concat_bus32: "i < length ws \<Longrightarrow> slice32 i (concat_bus32 ws) = ws ! i"
proof (induction ws arbitrary: i)
  case Nil
  then show ?case by simp
next
  case (Cons w ws)
  show ?case
  proof (cases i)
    case 0
    have z: "(4294967296 :: 32 word) = 0" by simp
    have "(word_of_nat (unat w + 2 ^ 32 * concat_bus32 ws) :: 32 word) = w"
      by (simp add: z)
    then show ?thesis using 0 by (simp add: slice32_def)
  next
    case (Suc j)
    have "drop_bit (Suc j * 32) (unat w + 2 ^ 32 * concat_bus32 ws)
          = drop_bit (j * 32) (drop_bit 32 (unat w + 2 ^ 32 * concat_bus32 ws))"
      by (simp add: add.commute)
    also have "drop_bit 32 (unat w + 2 ^ 32 * concat_bus32 ws) = concat_bus32 ws"
    proof -
      have "unat w < 2 ^ 32" using unsigned_less[of w] by simp
      then show ?thesis by (simp add: drop_bit_eq_div)
    qed
    finally show ?thesis using Suc Cons by (simp add: slice32_def)
  qed
qed

lemma run_append: "run D (ps @ qs) s = run D qs (run D ps s)"
  by (induction ps arbitrary: s) simp_all

lemma run_snoc: "run D (ps @ [p]) s = tick D p (run D ps s)"
  by (simp add: run_append)

lemma states_snoc: "states D (ps @ [p]) s = states D ps s @ [run D ps s]"
  by (induction ps arbitrary: s) simp_all

lemma length_states: "length (states D ps s) = length ps"
  by (induction ps arbitrary: s) simp_all

lemma nth_states: "k < length ps \<Longrightarrow> states D ps s ! k = run D (take k ps) s"
proof (induction ps arbitrary: s k)
  case Nil
  then show ?case by simp
next
  case (Cons p ps)
  then show ?case by (cases k) simp_all
qed

lemma length_GEN_dds_run: "length (GEN_dds (run D ps s)) = length (GEN_dds s)"
  by (induction ps arbitrary: s) (simp_all add: length_GEN_dds_tick)



lemma slice32_dds_dout_o:
  "i < length (GEN_dds s) \<Longrightarrow> slice32 i (dds_dout_o s) = prod_r1 (GEN_dds s ! i)"
  by (simp add: dds_dout_o_def slice32_concat_bus32)

lemma dds_dout_o_bound: "dds_dout_o s < 2 ^ (32 * length (GEN_dds s))"
  using concat_bus32_bound[of "map prod_r1 (GEN_dds s)"] by (simp add: dds_dout_o_def)

text \<open>Registers of a channel after one clock edge.\<close>

lemma prod_r1_tick:
  "i < length (GEN_dds s) \<Longrightarrow>
   prod_r1 (GEN_dds (tick D p s) ! i) = (if rstn p then prod (GEN_dds s ! i) else 0)"
  by (simp add: nth_GEN_dds_tick GEN_dds_tick_def)

lemma prod_real_r1_tick:
  "i < length (GEN_dds s) \<Longrightarrow>
   prod_real_r1 (GEN_dds (tick D p s) ! i) =
     (if rstn p then prod_real (GAIN_REG p) (GEN_dds s ! i) else 0)"
  by (simp add: nth_GEN_dds_tick GEN_dds_tick_def)

lemma prod_imag_r1_tick:
  "i < length (GEN_dds s) \<Longrightarrow>
   prod_imag_r1 (GEN_dds (tick D p s) ! i) =
     (if rstn p then prod_imag (GAIN_REG p) (GEN_dds s ! i) else 0)"
  by (simp add: nth_GEN_dds_tick GEN_dds_tick_def)

lemma latency_reg_tick_channel:
  "i < length (GEN_dds s) \<Longrightarrow>
   dds_dout_latency_reg_i (GEN_dds (tick D p s) ! i) =
     latency_reg_tick (rstn p) (dds_dout D i s) (dds_dout_latency_reg_i (GEN_dds s ! i))"
  by (simp add: nth_GEN_dds_tick GEN_dds_tick_def dds_dout_def)

lemma dds_i_tick:
  "i < length (GEN_dds s) \<Longrightarrow>
   dds_i (GEN_dds (tick D p s) ! i) =
     dds_next D (dds_tvalid_r s) (slice72 i (dds_ctrl_int_r s)) (dds_i (GEN_dds s ! i))"
  by (simp add: nth_GEN_dds_tick GEN_dds_tick_def)

lemma two_ticks_prod_r1:
  assumes "rstn p1" "rstn p2" "i < length (GEN_dds s)"
  shows "prod_r1 (GEN_dds (tick D p2 (tick D p1 s)) ! i) =
           concat16 (bits_30_15 (signed_mult (prod_a_imag (GEN_dds s ! i)) (GAIN_REG p1)))
                    (bits_30_15 (signed_mult (prod_a_real (GEN_dds s ! i)) (GAIN_REG p1)))"
proof -
  have i': "i < length (GEN_dds (tick D p1 s))"
    using assms(3) by (simp add: length_GEN_dds_tick)
  have "prod_r1 (GEN_dds (tick D p2 (tick D p1 s)) ! i) = prod (GEN_dds (tick D p1 s) ! i)"
    using assms(2) by (simp add: prod_r1_tick[OF i'])
  also have "\<dots> = concat16 (bits_30_15 (prod_imag_r1 (GEN_dds (tick D p1 s) ! i)))
                            (bits_30_15 (prod_real_r1 (GEN_dds (tick D p1 s) ! i)))"
    by (simp add: prod_def prod_imag_q_def prod_real_q_def)
  also have "\<dots> = concat16 (bits_30_15 (prod_imag (GAIN_REG p1) (GEN_dds s ! i)))
                            (bits_30_15 (prod_real (GAIN_REG p1) (GEN_dds s ! i)))"
    using assms(1) by (simp add: prod_real_r1_tick[OF assms(3)] prod_imag_r1_tick[OF assms(3)])
  finally show ?thesis by (simp add: prod_imag_def prod_real_def)
qed


lemma concat_bus32_zero: "\<forall>w\<in>set ws. w = 0 \<Longrightarrow> concat_bus32 ws = 0"
  by (induction ws) simp_all

lemma reset_tick_channel:
  "GEN_dds_tick D False tvalid tdata gain c =
     \<lparr> dds_i = dds_next D tvalid tdata (dds_i c),
       dds_dout_latency_reg_i = replicate latency_reg_N 0,
       prod_real_r1 = 0, prod_imag_r1 = 0, prod_r1 = 0 \<rparr>"
  by (simp add: GEN_dds_tick_def latency_reg_tick_def)

lemma reset_tick_clears:
  assumes "\<not> rstn p"
  shows "dds_tvalid_r (tick D p s) = False"
    and "dds_ctrl_int_r (tick D p s) = 0"
    and "list_all (\<lambda>c. dds_dout_latency_reg_i c = replicate latency_reg_N 0 \<and>
                       prod_real_r1 c = 0 \<and> prod_imag_r1 c = 0 \<and> prod_r1 c = 0)
           (GEN_dds (tick D p s))"
    and "dds_dout_o (tick D p s) = 0"
proof -
  show "dds_tvalid_r (tick D p s) = False" "dds_ctrl_int_r (tick D p s) = 0"
    using assms by (simp_all add: tick_def)
  show a: "list_all (\<lambda>c. dds_dout_latency_reg_i c = replicate latency_reg_N 0 \<and>
                       prod_real_r1 c = 0 \<and> prod_imag_r1 c = 0 \<and> prod_r1 c = 0)
           (GEN_dds (tick D p s))"
    using assms by (auto simp add: tick_def list_all_iff reset_tick_channel)
  have "\<forall>w\<in>set (map prod_r1 (GEN_dds (tick D p s))). w = 0"
    using a by (auto simp add: list_all_iff)
  then show "dds_dout_o (tick D p s) = 0"
    unfolding dds_dout_o_def by (rule concat_bus32_zero)
qed

lemma latency_reg_tick_length:
  "length shift_r = latency_reg_N \<Longrightarrow> length (latency_reg_tick rst_n din shift_r) = latency_reg_N"
  by (simp add: latency_reg_tick_def latency_reg_N_def)



lemma latency_regs_run:
  assumes "\<forall>p\<in>set ps. rstn p"
    and "i < length (GEN_dds s)"
    and "length (dds_dout_latency_reg_i (GEN_dds s ! i)) = latency_reg_N"
  shows "dds_dout_latency_reg_i (GEN_dds (run D ps s) ! i) =
           take latency_reg_N (rev (map (dds_dout D i) (states D ps s))
                               @ dds_dout_latency_reg_i (GEN_dds s ! i))"
  using assms(1)
proof (induction ps rule: rev_induct)
  case Nil
  then show ?case using assms(3) by simp
next
  case (snoc q qs)
  let ?X = "rev (map (dds_dout D i) (states D qs s)) @ dds_dout_latency_reg_i (GEN_dds s ! i)"
  have i': "i < length (GEN_dds (run D qs s))"
    using assms(2) by (simp add: length_GEN_dds_run)
  have q: "rstn q" using snoc.prems by simp
  have IH: "dds_dout_latency_reg_i (GEN_dds (run D qs s) ! i) = take latency_reg_N ?X"
    using snoc by simp
  have len: "latency_reg_N \<le> length ?X"
    using assms(3) by simp
  have "dds_dout_latency_reg_i (GEN_dds (run D (qs @ [q]) s) ! i) =
          dds_dout D i (run D qs s) # butlast (take latency_reg_N ?X)"
    using q by (simp add: run_snoc latency_reg_tick_channel[OF i'] latency_reg_tick_def IH)
  also have "butlast (take latency_reg_N ?X) = take (latency_reg_N - 1) ?X"
    using len by (rule butlast_take)
  also have "dds_dout D i (run D qs s) # take (latency_reg_N - 1) ?X =
             take latency_reg_N (dds_dout D i (run D qs s) # ?X)"
    by (simp add: latency_reg_N_def)
  finally show ?case
    by (simp add: states_snoc)
qed

lemma last_take_4: "4 \<le> length ys \<Longrightarrow> last (take 4 ys) = ys ! 3"
proof -
  assume a: "4 \<le> length ys"
  then have "take 4 ys \<noteq> []" by auto
  then have "last (take 4 ys) = take 4 ys ! (length (take 4 ys) - 1)"
    by (rule last_conv_nth)
  also have "\<dots> = ys ! 3" using a by (simp add: min_def)
  finally show ?thesis .
qed

lemma slice72_take_bit:
  "i < n \<Longrightarrow> slice72 i (take_bit (n * 72) x) = slice72 i x"
proof -
  assume "i < n"
  then have "Suc i \<le> n" by simp
  then have "Suc i * 72 \<le> n * 72" by (rule mult_le_mono1)
  then have le: "72 \<le> n * 72 - i * 72" by simp
  have "slice72 i (take_bit (n * 72) x) =
          word_of_nat (take_bit (n * 72 - i * 72) (drop_bit (i * 72) x))"
    by (simp add: slice72_def drop_bit_take_bit)
  also have "\<dots> = word_of_nat (drop_bit (i * 72) x)"
    using le by (intro bit_word_eqI) (auto simp add: bit_simps)
  finally show ?thesis by (simp add: slice72_def)
qed

lemma four_ticks_dds_dout_la:
  assumes "rstn p0" "rstn p1" "rstn p2" "rstn p3"
    and "i < length (GEN_dds s)"
    and "length (dds_dout_latency_reg_i (GEN_dds s ! i)) = latency_reg_N"
  shows "dds_dout_la (GEN_dds (run D [p0, p1, p2, p3] s) ! i) = dds_dout D i s"
proof -
  have a: "\<forall>p\<in>set [p0, p1, p2, p3]. rstn p"
    using assms(1-4) by simp
  have "dds_dout_latency_reg_i (GEN_dds (run D [p0, p1, p2, p3] s) ! i) =
          take latency_reg_N (rev (map (dds_dout D i) (states D [p0, p1, p2, p3] s))
                              @ dds_dout_latency_reg_i (GEN_dds s ! i))"
    by (rule latency_regs_run[OF a assms(5,6)])
  also have "\<dots> = [dds_dout D i (tick D p2 (tick D p1 (tick D p0 s))),
                    dds_dout D i (tick D p1 (tick D p0 s)),
                    dds_dout D i (tick D p0 s), dds_dout D i s]"
    by (simp add: latency_reg_N_def)
  finally show ?thesis
    by (simp only: dds_dout_la_def latency_reg_dout_def) simp
qed

lemma tick_channel_agree:
  assumes "rstn p1 = rstn p2" and "GAIN_REG p1 = GAIN_REG p2"
    and "slice72 i (dds_ctrl_int_r s1) = slice72 i (dds_ctrl_int_r s2)"
    and "dds_tvalid_r s1 = dds_tvalid_r s2"
    and "i < length (GEN_dds s1)" and "i < length (GEN_dds s2)"
    and "GEN_dds s1 ! i = GEN_dds s2 ! i"
  shows "GEN_dds (tick D p1 s1) ! i = GEN_dds (tick D p2 s2) ! i"
    and "dds_tvalid_r (tick D p1 s1) = dds_tvalid_r (tick D p2 s2)"
proof -
  show "GEN_dds (tick D p1 s1) ! i = GEN_dds (tick D p2 s2) ! i"
    by (simp only: nth_GEN_dds_tick[OF assms(5)] nth_GEN_dds_tick[OF assms(6)] assms(1-4,7))
  show "dds_tvalid_r (tick D p1 s1) = dds_tvalid_r (tick D p2 s2)"
    using assms(1) by (simp add: tick_def)
qed

lemma prod_q_tick:
  assumes "rstn p" and "i < length (GEN_dds s)"
  shows "prod_real_q (GEN_dds (tick D p s) ! i) =
           bits_30_15 (signed_mult (prod_a_real (GEN_dds s ! i)) (GAIN_REG p))"
    and "prod_imag_q (GEN_dds (tick D p s) ! i) =
           bits_30_15 (signed_mult (prod_a_imag (GEN_dds s ! i)) (GAIN_REG p))"
  using assms(1)
  by (simp_all add: prod_real_q_def prod_imag_q_def prod_real_r1_tick[OF assms(2)]
      prod_imag_r1_tick[OF assms(2)] prod_real_def prod_imag_def)

lemma output_components_two_ticks:
  assumes "rstn p" and "rstn p2" and "i < length (GEN_dds s)"
  shows "bits_15_0 (slice32 i (dds_dout_o (tick D p2 (tick D p s)))) =
           prod_real_q (GEN_dds (tick D p s) ! i)"
    and "bits_31_16 (slice32 i (dds_dout_o (tick D p2 (tick D p s)))) =
           prod_imag_q (GEN_dds (tick D p s) ! i)"
proof -
  have i1: "i < length (GEN_dds (tick D p s))"
    using assms(3) by (simp add: length_GEN_dds_tick)
  have i2: "i < length (GEN_dds (tick D p2 (tick D p s)))"
    using i1 by (simp add: length_GEN_dds_tick)
  have w: "slice32 i (dds_dout_o (tick D p2 (tick D p s))) =
           concat16 (prod_imag_q (GEN_dds (tick D p s) ! i)) (prod_real_q (GEN_dds (tick D p s) ! i))"
    using assms(2) by (simp add: slice32_dds_dout_o[OF i2] prod_r1_tick[OF i1] prod_def)
  show "bits_15_0 (slice32 i (dds_dout_o (tick D p2 (tick D p s)))) =
           prod_real_q (GEN_dds (tick D p s) ! i)"
    by (simp only: w bits_15_0_concat16)
  show "bits_31_16 (slice32 i (dds_dout_o (tick D p2 (tick D p s)))) =
           prod_imag_q (GEN_dds (tick D p s) ! i)"
    by (simp only: w bits_31_16_concat16)
qed

lemma latency_length_tick:
  assumes "i < length (GEN_dds s)"
    and "length (dds_dout_latency_reg_i (GEN_dds s ! i)) = latency_reg_N"
  shows "length (dds_dout_latency_reg_i (GEN_dds (tick D p s) ! i)) = latency_reg_N"
  by (simp only: latency_reg_tick_channel[OF assms(1)] latency_reg_tick_length[OF assms(2)])

lemma latency_length_run:
  assumes "i < length (GEN_dds s)"
    and "length (dds_dout_latency_reg_i (GEN_dds s ! i)) = latency_reg_N"
  shows "length (dds_dout_latency_reg_i (GEN_dds (run D ps s) ! i)) = latency_reg_N"
  using assms
proof (induction ps arbitrary: s)
  case Nil
  then show ?case by simp
next
  case (Cons p ps)
  have "i < length (GEN_dds (tick D p s))"
    using Cons.prems(1) by (simp add: length_GEN_dds_tick)
  then show ?case
    using Cons.IH[of "tick D p s"] latency_length_tick[OF Cons.prems] by simp
qed

lemma six_ticks_output:
  assumes "rstn p0" "rstn p1" "rstn p2" "rstn p3" "rstn p4" "rstn p5"
    and "i < length (GEN_dds s)"
    and "length (dds_dout_latency_reg_i (GEN_dds s ! i)) = latency_reg_N"
  shows "slice32 i (dds_dout_o (run D [p0, p1, p2, p3, p4, p5] s)) =
           concat16 (bits_30_15 (signed_mult (bits_31_16 (dds_dout D i s)) (GAIN_REG p4)))
                    (bits_30_15 (signed_mult (bits_15_0 (dds_dout D i s)) (GAIN_REG p4)))"
proof -
  let ?s4 = "run D [p0, p1, p2, p3] s"
  have i4: "i < length (GEN_dds ?s4)"
    using assms(7) by (simp only: length_GEN_dds_run)
  have i6: "i < length (GEN_dds (tick D p5 (tick D p4 ?s4)))"
    using i4 by (simp only: length_GEN_dds_tick)
  have la: "dds_dout_la (GEN_dds ?s4 ! i) = dds_dout D i s"
    by (rule four_ticks_dds_dout_la[OF assms(1-4) assms(7) assms(8)])
  have r: "run D [p0, p1, p2, p3, p4, p5] s = tick D p5 (tick D p4 ?s4)"
    by simp
  show ?thesis
    by (simp only: r slice32_dds_dout_o[OF i6] two_ticks_prod_r1[OF assms(5,6) i4]
        prod_a_imag_def prod_a_real_def la)
qed

lemma dds_tvalid_r_tick: "rstn p \<Longrightarrow> dds_tvalid_r (tick D p s)"
  by (simp add: tick_def)

lemma ref_osc_tick:
  assumes "dds_next D = ref_dds_next" and "dds_tvalid_r s" and "i < length (GEN_dds s)"
  shows "phase_acc (dds_i (GEN_dds (tick D p s) ! i)) =
           phase_acc (dds_i (GEN_dds s ! i)) + ucast (slice72 i (dds_ctrl_int_r s))"
    and "pipe (dds_i (GEN_dds (tick D p s) ! i)) =
           quadrant_sample (phase_acc (dds_i (GEN_dds s ! i)) + ucast (slice72 i (dds_ctrl_int_r s)))
           # butlast (pipe (dds_i (GEN_dds s ! i)))"
  using assms(1,2) by (simp_all add: dds_i_tick[OF assms(3)] ref_dds_next_def Let_def)

lemma ref_pipe_shift_run:
  assumes "dds_next D = ref_dds_next"
    and "dds_tvalid_r s"
    and "\<forall>p\<in>set ps. rstn p"
    and "i < length (GEN_dds s)"
    and "j + length ps < length (pipe (dds_i (GEN_dds s ! i)))"
  shows "pipe (dds_i (GEN_dds (run D ps s) ! i)) ! (j + length ps) =
           pipe (dds_i (GEN_dds s ! i)) ! j \<and>
         length (pipe (dds_i (GEN_dds (run D ps s) ! i))) = length (pipe (dds_i (GEN_dds s ! i)))"
  using assms(2-5)
proof (induction ps arbitrary: s j)
  case Nil
  then show ?case by simp
next
  case (Cons p ps)
  let ?s1 = "tick D p s"
  let ?o = "dds_i (GEN_dds s ! i)"
  have p: "rstn p" using Cons.prems(2) by simp
  have v: "dds_tvalid_r ?s1" by (rule dds_tvalid_r_tick[OF p])
  have i1: "i < length (GEN_dds ?s1)"
    using Cons.prems(3) by (simp add: length_GEN_dds_tick)
  have pp: "pipe (dds_i (GEN_dds ?s1 ! i)) =
      quadrant_sample (phase_acc ?o + ucast (slice72 i (dds_ctrl_int_r s))) # butlast (pipe ?o)"
    by (rule ref_osc_tick(2)[OF assms(1) Cons.prems(1) Cons.prems(3)])
  have ne: "pipe ?o \<noteq> []" using Cons.prems(4) by auto
  have len: "length (pipe (dds_i (GEN_dds ?s1 ! i))) = length (pipe ?o)"
    using ne by (simp add: pp)
  have nth: "pipe (dds_i (GEN_dds ?s1 ! i)) ! Suc j = pipe ?o ! j"
    using Cons.prems(4) by (simp add: pp nth_butlast)
  have b: "Suc j + length ps < length (pipe (dds_i (GEN_dds ?s1 ! i)))"
    using Cons.prems(4) by (simp add: len)
  have rest: "\<forall>q\<in>set ps. rstn q" using Cons.prems(2) by simp
  from Cons.IH[OF v rest i1 b] show ?case
    by (simp add: nth len)
qed

lemma sixteen_ticks_output:
  assumes "dds_next D = ref_dds_next" and "dds_out D = ref_dds_out"
    and "dds_tvalid_r s"
    and "rstn p1" and "\<forall>p\<in>set mid. rstn p" and "length mid = 9"
    and "rstn q0" "rstn q1" "rstn q2" "rstn q3" "rstn q4" "rstn q5"
    and "i < length (GEN_dds s)"
    and "length (dds_dout_latency_reg_i (GEN_dds s ! i)) = latency_reg_N"
    and "length (pipe (dds_i (GEN_dds s ! i))) = 10"
  shows "slice32 i (dds_dout_o (run D (p1 # mid @ [q0, q1, q2, q3, q4, q5]) s)) =
           (let smp = quadrant_sample (phase_acc (dds_i (GEN_dds s ! i))
                                       + ucast (slice72 i (dds_ctrl_int_r s)))
            in concat16 (bits_30_15 (signed_mult (bits_31_16 smp) (GAIN_REG q4)))
                        (bits_30_15 (signed_mult (bits_15_0 smp) (GAIN_REG q4))))"
proof -
  let ?s1 = "tick D p1 s"
  let ?s10 = "run D mid ?s1"
  let ?smp = "quadrant_sample (phase_acc (dds_i (GEN_dds s ! i))
                               + ucast (slice72 i (dds_ctrl_int_r s)))"
  have i1: "i < length (GEN_dds ?s1)"
    using assms(13) by (simp add: length_GEN_dds_tick)
  have i10: "i < length (GEN_dds ?s10)"
    using i1 by (simp add: length_GEN_dds_run)
  have v1: "dds_tvalid_r ?s1" by (rule dds_tvalid_r_tick[OF assms(4)])
  have p1: "pipe (dds_i (GEN_dds ?s1 ! i)) = ?smp # butlast (pipe (dds_i (GEN_dds s ! i)))"
    by (rule ref_osc_tick(2)[OF assms(1) assms(3) assms(13)])
  have l1: "length (pipe (dds_i (GEN_dds ?s1 ! i))) = 10"
    using assms(15) by (simp add: p1)
  have b: "0 + length mid < length (pipe (dds_i (GEN_dds ?s1 ! i)))"
    using assms(6) l1 by simp
  note sh = ref_pipe_shift_run[OF assms(1) v1 assms(5) i1 b]
  have l10: "length (pipe (dds_i (GEN_dds ?s10 ! i))) = 10"
    using sh l1 by simp
  have n9: "pipe (dds_i (GEN_dds ?s10 ! i)) ! 9 = ?smp"
    using sh assms(6) by (simp add: p1)
  have ne: "pipe (dds_i (GEN_dds ?s10 ! i)) \<noteq> []"
    using l10 by auto
  have "dds_dout D i ?s10 = last (pipe (dds_i (GEN_dds ?s10 ! i)))"
    by (simp add: dds_dout_def assms(2) ref_dds_out_def)
  also have "\<dots> = pipe (dds_i (GEN_dds ?s10 ! i)) ! 9"
    using l10 by (simp add: last_conv_nth[OF ne])
  finally have d: "dds_dout D i ?s10 = ?smp"
    by (simp only: n9)
  have lat: "length (dds_dout_latency_reg_i (GEN_dds ?s10 ! i)) = latency_reg_N"
    by (rule latency_length_run[OF i1 latency_length_tick[OF assms(13,14)]])
  have r: "run D (p1 # mid @ [q0, q1, q2, q3, q4, q5]) s = run D [q0, q1, q2, q3, q4, q5] ?s10"
    by (simp add: run_append)
  show ?thesis
    by (simp only: r six_ticks_output[OF assms(7-12) i10 lat] d Let_def)
qed

lemma phase_ctrl_i_run_snoc:
  "phase_ctrl_i (run D (qs @ [p]) s) =
     phase_ctrl_next D (rstn p) (PINC_REG p) (WE_REG p) (phase_ctrl_i (run D qs s))"
  by (simp add: run_snoc tick_def)



section \<open>The claims\<close>

text \<open>
  C1. In steady state (reset deasserted at two consecutive clock edges), each 16-bit
  component of a channel's output word consists of bits 30 down to 15 of the 32-bit signed
  product of the corresponding component of the delayed sample \<open>dds_dout_la\<close> and the
  gain, both taken two cycles earlier: as an unsigned number it is
  \<open>(sample * gain) div 2^15 mod 2^16\<close>, the floor of the quotient, neither rounded nor
  saturated.
\<close>

theorem gain_stage_truncation:
  assumes "rstn p1" and "rstn p2" and "i < length (GEN_dds s)"
  shows "let c = GEN_dds s ! i;
             g = GAIN_REG p1;
             w = slice32 i (dds_dout_o (tick D p2 (tick D p1 s)))
         in bits_15_0 w = bits_30_15 (signed_mult (prod_a_real c) g) \<and>
            bits_31_16 w = bits_30_15 (signed_mult (prod_a_imag c) g) \<and>
            uint (bits_15_0 w) = (sint (prod_a_real c) * sint g) div 2 ^ 15 mod 2 ^ 16 \<and>
            uint (bits_31_16 w) = (sint (prod_a_imag c) * sint g) div 2 ^ 15 mod 2 ^ 16"
proof -
  have len: "i < length (GEN_dds (tick D p2 (tick D p1 s)))"
    using assms(3) by (simp add: length_GEN_dds_tick)
  have w: "slice32 i (dds_dout_o (tick D p2 (tick D p1 s))) =
        concat16 (bits_30_15 (signed_mult (prod_a_imag (GEN_dds s ! i)) (GAIN_REG p1)))
                 (bits_30_15 (signed_mult (prod_a_real (GEN_dds s ! i)) (GAIN_REG p1)))"
    by (simp only: slice32_dds_dout_o[OF len] two_ticks_prod_r1[OF assms])
  show ?thesis
    by (simp only: Let_def w bits_15_0_concat16 bits_31_16_concat16 signed_mult_int
        uint_bits_30_15)
qed

text \<open>
  At the steady state of the reference instance the delayed sample of channel 0 is
  \<open>{32767, 0}\<close>; with gain \<open>0xBFFF = -16385\<close> the imaginary output is
  \<open>\<lfloor>32767 * (-16385) / 2^15\<rfloor> = -16385\<close>, where rounding to nearest or towards zero
  would give \<open>-16384\<close>.
\<close>

theorem gain_stage_truncation_witness:
  "rstn (operate 0x10000000 0xBFFF False) \<and> rstn (operate 0x10000000 0x4000 False) \<and>
   0 < length (GEN_dds ref_steady) \<and>
   (let c = GEN_dds ref_steady ! 0;
        g = GAIN_REG (operate 0x10000000 0xBFFF False);
        w = slice32 0 (dds_dout_o (tick (ref_design 2) (operate 0x10000000 0x4000 False)
                                    (tick (ref_design 2) (operate 0x10000000 0xBFFF False)
                                       ref_steady)))
    in bits_15_0 w = bits_30_15 (signed_mult (prod_a_real c) g) \<and>
       bits_31_16 w = bits_30_15 (signed_mult (prod_a_imag c) g) \<and>
       uint (bits_15_0 w) = (sint (prod_a_real c) * sint g) div 2 ^ 15 mod 2 ^ 16 \<and>
       uint (bits_31_16 w) = (sint (prod_a_imag c) * sint g) div 2 ^ 15 mod 2 ^ 16) \<and>
   sint (prod_a_imag (GEN_dds ref_steady ! 0)) = 32767 \<and>
   sint (GAIN_REG (operate 0x10000000 0xBFFF False)) = - 16385 \<and>
   (32767 * (- 16385)) div 2 ^ 15 mod 2 ^ 16 = (49151 :: int)"
proof -
  have h1: "rstn (operate 0x10000000 0xBFFF False)"
    by (simp add: operate_def)
  have h2: "rstn (operate 0x10000000 0x4000 False)"
    by (simp add: operate_def)
  have h3: "0 < length (GEN_dds ref_steady)"
    by (simp add: ref_steady_def)
  have v1: "sint (prod_a_imag (GEN_dds ref_steady ! 0)) = 32767"
    by (simp add: ref_steady_def ref_eval ref_lists)
  have v2: "sint (GAIN_REG (operate 0x10000000 0xBFFF False)) = - 16385"
    by (simp add: operate_def)
  have v3: "(32767 * (- 16385)) div 2 ^ 15 mod 2 ^ 16 = (49151 :: int)"
    by simp
  show ?thesis
    using h1 h2 h3 gain_stage_truncation[OF h1 h2 h3, of "ref_design 2"] v1 v2 v3
    by blast
qed

text \<open>
  C9. Let \<open>sample\<close> be a component of the delayed sample of channel \<open>i\<close> and \<open>gain\<close>
  the gain register in a cycle whose clock edge has reset deasserted, and let the output
  of the gain stage be the wire \<open>prod_real_q\<close> (\<open>prod_imag_q\<close>) after that edge, which
  one more edge puts on bits 15..0 (31..16) of the channel's output word. If
  \<open>sample = gain = -32768\<close> the exact quotient is \<open>+32768\<close> and the output is \<open>0x8000\<close>,
  read \<open>-32768\<close>, not the saturated \<open>+32767\<close>. For every other pair the output read as
  a signed number is exactly \<open>\<lfloor>sample * gain / 2^15\<rfloor>\<close>.
\<close>

theorem gain_stage_corner_case:
  assumes "rstn p" and "rstn p2" and "i < length (GEN_dds s)"
  shows "let c = GEN_dds s ! i;
             g = GAIN_REG p;
             c' = GEN_dds (tick D p s) ! i;
             w = slice32 i (dds_dout_o (tick D p2 (tick D p s)))
         in bits_15_0 w = prod_real_q c' \<and>
            bits_31_16 w = prod_imag_q c' \<and>
            (prod_a_real c = 0x8000 \<and> g = 0x8000 \<longrightarrow>
               sint (prod_a_real c) * sint g div 2 ^ 15 = 32768 \<and>
               prod_real_q c' = 0x8000 \<and> sint (prod_real_q c') = - 32768) \<and>
            (\<not> (prod_a_real c = 0x8000 \<and> g = 0x8000) \<longrightarrow>
               sint (prod_real_q c') = sint (prod_a_real c) * sint g div 2 ^ 15) \<and>
            (prod_a_imag c = 0x8000 \<and> g = 0x8000 \<longrightarrow>
               sint (prod_a_imag c) * sint g div 2 ^ 15 = 32768 \<and>
               prod_imag_q c' = 0x8000 \<and> sint (prod_imag_q c') = - 32768) \<and>
            (\<not> (prod_a_imag c = 0x8000 \<and> g = 0x8000) \<longrightarrow>
               sint (prod_imag_q c') = sint (prod_a_imag c) * sint g div 2 ^ 15)"
proof -
  let ?c = "GEN_dds s ! i" and ?g = "GAIN_REG p" and ?c' = "GEN_dds (tick D p s) ! i"
  have qr: "prod_real_q ?c' = bits_30_15 (signed_mult (prod_a_real ?c) ?g)"
    by (rule prod_q_tick(1)[OF assms(1,3)])
  have qi: "prod_imag_q ?c' = bits_30_15 (signed_mult (prod_a_imag ?c) ?g)"
    by (rule prod_q_tick(2)[OF assms(1,3)])
  have corner: "sint a * sint g div 2 ^ 15 = 32768 \<and>
      bits_30_15 (signed_mult a g) = 0x8000 \<and> sint (bits_30_15 (signed_mult a g)) = - 32768"
    if "a = 0x8000 \<and> g = 0x8000" for a g :: "16 word"
  proof -
    from that have a: "a = 0x8000" and g: "g = 0x8000" by simp_all
    show ?thesis
      unfolding a g using corner_case_values(1,2,3) by blast
  qed
  have r1: "prod_a_real ?c = 0x8000 \<and> ?g = 0x8000 \<longrightarrow>
      sint (prod_a_real ?c) * sint ?g div 2 ^ 15 = 32768 \<and>
      prod_real_q ?c' = 0x8000 \<and> sint (prod_real_q ?c') = - 32768"
    unfolding qr using corner[of "prod_a_real ?c" ?g] by blast
  have r2: "\<not> (prod_a_real ?c = 0x8000 \<and> ?g = 0x8000) \<longrightarrow>
      sint (prod_real_q ?c') = sint (prod_a_real ?c) * sint ?g div 2 ^ 15"
    unfolding qr using bits_30_15_no_wrap[of "prod_a_real ?c" ?g] by blast
  have i1: "prod_a_imag ?c = 0x8000 \<and> ?g = 0x8000 \<longrightarrow>
      sint (prod_a_imag ?c) * sint ?g div 2 ^ 15 = 32768 \<and>
      prod_imag_q ?c' = 0x8000 \<and> sint (prod_imag_q ?c') = - 32768"
    unfolding qi using corner[of "prod_a_imag ?c" ?g] by blast
  have i2: "\<not> (prod_a_imag ?c = 0x8000 \<and> ?g = 0x8000) \<longrightarrow>
      sint (prod_imag_q ?c') = sint (prod_a_imag ?c) * sint ?g div 2 ^ 15"
    unfolding qi using bits_30_15_no_wrap[of "prod_a_imag ?c" ?g] by blast
  show ?thesis
    unfolding Let_def
    using output_components_two_ticks[OF assms, of D] r1 r2 i1 i2 by blast
qed

text \<open>
  In a state whose delayed sample of channel 0 is \<open>{-32768, -32768}\<close>: with gain
  \<open>-32768\<close> the gain stage puts out \<open>-32768\<close>; with gain \<open>32767\<close> it puts out
  \<open>\<lfloor>-32768 * 32767 / 2^15\<rfloor> = -32767\<close>.
\<close>

theorem gain_stage_corner_case_witness:
  "rstn (operate 0 0x8000 False) \<and> rstn (operate 0 0x7FFF False) \<and>
   0 < length (GEN_dds ref_corner) \<and>
   prod_a_real (GEN_dds ref_corner ! 0) = 0x8000 \<and>
   prod_a_imag (GEN_dds ref_corner ! 0) = 0x8000 \<and>
   GAIN_REG (operate 0 0x8000 False) = 0x8000 \<and>
   GAIN_REG (operate 0 0x7FFF False) \<noteq> 0x8000 \<and>
   prod_real_q (GEN_dds (tick (ref_design 2) (operate 0 0x8000 False) ref_corner) ! 0) = 0x8000 \<and>
   sint (prod_real_q (GEN_dds (tick (ref_design 2) (operate 0 0x8000 False) ref_corner) ! 0))
     = - 32768 \<and>
   sint (prod_imag_q (GEN_dds (tick (ref_design 2) (operate 0 0x8000 False) ref_corner) ! 0))
     = - 32768 \<and>
   bits_15_0 (slice32 0 (dds_dout_o (tick (ref_design 2) (operate 0 0x7FFF False)
       (tick (ref_design 2) (operate 0 0x8000 False) ref_corner)))) = 0x8000 \<and>
   sint (prod_real_q (GEN_dds (tick (ref_design 2) (operate 0 0x7FFF False) ref_corner) ! 0))
     = sint (prod_a_real (GEN_dds ref_corner ! 0)) * sint (GAIN_REG (operate 0 0x7FFF False))
         div 2 ^ 15 \<and>
   sint (prod_a_real (GEN_dds ref_corner ! 0)) * sint (GAIN_REG (operate 0 0x7FFF False))
         div 2 ^ 15 = - 32767"
proof -
  have a: "rstn (operate 0 0x8000 False)" and b: "rstn (operate 0 0x7FFF False)"
    by (simp_all add: operate_def)
  have i: "0 < length (GEN_dds ref_corner)"
    by (simp add: ref_corner_def)
  have re: "prod_a_real (GEN_dds ref_corner ! 0) = 0x8000"
    and im: "prod_a_imag (GEN_dds ref_corner ! 0) = 0x8000"
    by (simp_all add: ref_corner_def ref_eval ref_lists)
  have g1: "GAIN_REG (operate 0 0x8000 False) = 0x8000"
    and g2: "GAIN_REG (operate 0 0x7FFF False) \<noteq> 0x8000"
    by (simp_all add: operate_def)
  have v: "sint (prod_a_real (GEN_dds ref_corner ! 0)) * sint (GAIN_REG (operate 0 0x7FFF False))
         div 2 ^ 15 = - 32767"
    by (simp add: re operate_def)
  note t1 = gain_stage_corner_case[OF a b i, of "ref_design 2", unfolded Let_def]
  note t2 = gain_stage_corner_case[OF b b i, of "ref_design 2", unfolded Let_def]
  show ?thesis
    using a b i re im g1 g2 v t1 t2 by metis
qed

text \<open>
  C10. After a clock edge with reset asserted \<open>dds_tvalid_r\<close> is 0; it is still 0 in
  the first cycle after the release of reset (no edge with reset deasserted has happened
  yet) and 1 after every later edge, for as long as reset stays deasserted.
\<close>

theorem dds_tvalid_r_after_reset:
  assumes "\<not> rstn r" and "\<forall>p\<in>set ps. rstn p"
  shows "dds_tvalid_r (run D ps (tick D r s)) = (ps \<noteq> [])"
proof (cases ps rule: rev_cases)
  case Nil
  then show ?thesis using assms(1) by (simp add: tick_def)
next
  case (snoc qs q)
  then have "rstn q" using assms(2) by simp
  then show ?thesis using snoc by (simp add: run_snoc tick_def)
qed

theorem dds_tvalid_r_after_reset_witness:
  "\<not> rstn in_reset \<and> rstn (operate 1 2 False) \<and> rstn (operate 3 4 True) \<and>
   dds_tvalid_r (tick (ref_design 2) in_reset ref_steady) = False \<and>
   dds_tvalid_r (run (ref_design 2) [operate 1 2 False]
                   (tick (ref_design 2) in_reset ref_steady)) = True \<and>
   dds_tvalid_r (run (ref_design 2) [operate 1 2 False, operate 3 4 True]
                   (tick (ref_design 2) in_reset ref_steady)) = True"
proof -
  have h1: "\<not> rstn in_reset"
    by (simp add: in_reset_def)
  have r1: "rstn (operate 1 2 False)" and r2: "rstn (operate 3 4 True)"
    by (simp_all add: operate_def)
  have h0: "\<forall>p\<in>set []. rstn p"
    by simp
  have h2: "\<forall>p\<in>set [operate 1 2 False]. rstn p"
    using r1 by simp
  have h3: "\<forall>p\<in>set [operate 1 2 False, operate 3 4 True]. rstn p"
    using r1 r2 by simp
  show ?thesis
    using h1 r1 r2
      dds_tvalid_r_after_reset[OF h1 h0, of "ref_design 2" ref_steady]
      dds_tvalid_r_after_reset[OF h1 h2, of "ref_design 2" ref_steady]
      dds_tvalid_r_after_reset[OF h1 h3, of "ref_design 2" ref_steady]
    by simp
qed

text \<open>
  C8, as the code has it. The output word of channel \<open>i\<close> is the register
  \<open>prod_r1[i]\<close>, which occupies bits \<open>[i*32 +: 32]\<close> of the output bus. After a clock
  edge with reset deasserted it is \<open>{prod_imag_q, prod_real_q}\<close>, the imaginary
  component in bits 31..16 and the real one in bits 15..0; after a clock edge with reset
  asserted it is zero, whatever the scaled pair was.
\<close>

theorem output_word_packing:
  assumes "i < length (GEN_dds s)"
  shows "let c = GEN_dds s ! i;
             w = slice32 i (dds_dout_o (tick D p s))
         in w = prod_r1 (GEN_dds (tick D p s) ! i) \<and>
            w = (if rstn p then concat16 (prod_imag_q c) (prod_real_q c) else 0) \<and>
            (rstn p \<longrightarrow> bits_31_16 w = prod_imag_q c \<and> bits_15_0 w = prod_real_q c) \<and>
            dds_dout_o (tick D p s) = concat_bus32 (map prod_r1 (GEN_dds (tick D p s))) \<and>
            dds_dout_o (tick D p s) < 2 ^ (32 * length (GEN_dds s))"
proof -
  have len: "i < length (GEN_dds (tick D p s))"
    using assms by (simp add: length_GEN_dds_tick)
  have w: "slice32 i (dds_dout_o (tick D p s)) = prod_r1 (GEN_dds (tick D p s) ! i)"
    by (rule slice32_dds_dout_o[OF len])
  have r: "prod_r1 (GEN_dds (tick D p s) ! i) =
           (if rstn p then concat16 (prod_imag_q (GEN_dds s ! i)) (prod_real_q (GEN_dds s ! i))
            else 0)"
    by (simp add: prod_r1_tick[OF assms] prod_def)
  have b: "dds_dout_o (tick D p s) < 2 ^ (32 * length (GEN_dds s))"
    using dds_dout_o_bound[of "tick D p s"] by (simp add: length_GEN_dds_tick)
  have c2: "slice32 i (dds_dout_o (tick D p s)) =
            (if rstn p then concat16 (prod_imag_q (GEN_dds s ! i)) (prod_real_q (GEN_dds s ! i))
             else 0)"
    by (simp only: w r)
  have c3: "rstn p \<longrightarrow>
            bits_31_16 (slice32 i (dds_dout_o (tick D p s))) = prod_imag_q (GEN_dds s ! i) \<and>
            bits_15_0 (slice32 i (dds_dout_o (tick D p s))) = prod_real_q (GEN_dds s ! i)"
    by (simp add: c2 bits_15_0_concat16 bits_31_16_concat16)
  have d: "dds_dout_o (tick D p s) = concat_bus32 (map prod_r1 (GEN_dds (tick D p s)))"
    by (simp add: dds_dout_o_def)
  show ?thesis
    unfolding Let_def using w c2 c3 d b by blast
qed

theorem output_word_packing_witness:
  "0 < length (GEN_dds ref_steady) \<and> rstn (operate 0 0x4000 False) \<and>
   (let c = GEN_dds ref_steady ! 0;
        w = slice32 0 (dds_dout_o (tick (ref_design 2) (operate 0 0x4000 False) ref_steady))
    in w = prod_r1 (GEN_dds (tick (ref_design 2) (operate 0 0x4000 False) ref_steady) ! 0) \<and>
       w = (if rstn (operate 0 0x4000 False)
            then concat16 (prod_imag_q c) (prod_real_q c) else 0) \<and>
       (rstn (operate 0 0x4000 False) \<longrightarrow>
          bits_31_16 w = prod_imag_q c \<and> bits_15_0 w = prod_real_q c) \<and>
       dds_dout_o (tick (ref_design 2) (operate 0 0x4000 False) ref_steady) =
         concat_bus32 (map prod_r1
           (GEN_dds (tick (ref_design 2) (operate 0 0x4000 False) ref_steady))) \<and>
       dds_dout_o (tick (ref_design 2) (operate 0 0x4000 False) ref_steady)
         < 2 ^ (32 * length (GEN_dds ref_steady))) \<and>
   prod_imag_q (GEN_dds ref_steady ! 0) = 0x3FFF \<and>
   prod_real_q (GEN_dds ref_steady ! 0) = 0"
proof -
  have h1: "0 < length (GEN_dds ref_steady)"
    by (simp add: ref_steady_def)
  have h2: "rstn (operate 0 0x4000 False)"
    by (simp add: operate_def)
  have v1: "prod_imag_q (GEN_dds ref_steady ! 0) = 0x3FFF"
    by (simp add: ref_steady_def ref_eval ref_lists)
  have v2: "prod_real_q (GEN_dds ref_steady ! 0) = 0"
    by (simp add: ref_steady_def ref_eval ref_lists)
  show ?thesis
    using h1 h2 v1 v2
      output_word_packing[OF h1, of "ref_design 2" "operate 0 0x4000 False"]
    by blast
qed

text \<open>
  C8 as stated fails at a clock edge with reset asserted: in the steady state of the
  reference instance the scaled pair of channel 0 is \<open>(0x3FFF, 0)\<close>, and the output
  word after the edge is zero instead of its packing \<open>0x3FFF0000\<close>.
\<close>

theorem output_word_packing_counterexample:
  "slice32 0 (dds_dout_o (tick (ref_design 2) in_reset ref_steady)) \<noteq>
   concat16 (prod_imag_q (GEN_dds ref_steady ! 0)) (prod_real_q (GEN_dds ref_steady ! 0))"
  by (simp add: ref_steady_def ref_eval ref_lists)


text \<open>
  C2, as the code has it, with the oscillator core modelled from the specification
  (latency 10). With reset deasserted, the control word that \<open>phase_ctrl_i\<close> drives on
  \<open>dds_ctrl_int\<close> in cycle \<open>t\<close> determines the output word of channel \<open>i\<close> in cycle
  \<open>t + 17\<close>: one edge into \<open>dds_ctrl_int_r\<close>, ten through the oscillator, four through
  the latency register, one into \<open>prod_real_r1\<close>/\<open>prod_imag_r1\<close> and one into
  \<open>prod_r1\<close>. The output word in cycle \<open>t + 16\<close> is determined by the registers of
  cycle \<open>t\<close> alone, so the control word of cycle \<open>t\<close> is not visible earlier. The gain
  enters at the multiplier: the output word in cycle \<open>t + 17\<close> carries \<open>GAIN_REG\<close> of
  cycle \<open>t + 15\<close>, and in general the output word six edges after a cycle is the
  oscillator output of that cycle scaled by \<open>GAIN_REG\<close> of the fifth edge. These
  numbers are the same for every channel and for all data.
\<close>

theorem fixed_latencies:
  assumes "dds_next D = ref_dds_next" and "dds_out D = ref_dds_out"
    and "rstn p0" and "rstn p1" and "\<forall>p\<in>set mid. rstn p" and "length mid = 9"
    and "rstn q0" and "rstn q1" and "rstn q2" and "rstn q3" and "rstn q4" and "rstn q5"
    and "length (GEN_dds s) = N_DDS D"
    and "i < N_DDS D"
    and "length (dds_dout_latency_reg_i (GEN_dds s ! i)) = latency_reg_N"
    and "length (pipe (dds_i (GEN_dds s ! i))) = 10"
  shows "slice32 i (dds_dout_o (run D (p0 # p1 # mid @ [q0, q1, q2, q3, q4, q5]) s)) =
           (let acc = phase_acc (ref_dds_next (dds_tvalid_r s) (slice72 i (dds_ctrl_int_r s))
                                   (dds_i (GEN_dds s ! i)));
                word = slice72 i (phase_ctrl_out D (rstn p0) (PINC_REG p0) (WE_REG p0)
                                    (phase_ctrl_i s));
                smp = quadrant_sample (acc + ucast word)
            in concat16 (bits_30_15 (signed_mult (bits_31_16 smp) (GAIN_REG q4)))
                        (bits_30_15 (signed_mult (bits_15_0 smp) (GAIN_REG q4)))) \<and>
         (dds_tvalid_r s \<longrightarrow>
          slice32 i (dds_dout_o (run D (p1 # mid @ [q0, q1, q2, q3, q4, q5]) s)) =
           (let smp = quadrant_sample (phase_acc (dds_i (GEN_dds s ! i))
                                       + ucast (slice72 i (dds_ctrl_int_r s)))
            in concat16 (bits_30_15 (signed_mult (bits_31_16 smp) (GAIN_REG q4)))
                        (bits_30_15 (signed_mult (bits_15_0 smp) (GAIN_REG q4))))) \<and>
         slice32 i (dds_dout_o (run D [q0, q1, q2, q3, q4, q5] s)) =
           concat16 (bits_30_15 (signed_mult (bits_31_16 (dds_dout D i s)) (GAIN_REG q4)))
                    (bits_30_15 (signed_mult (bits_15_0 (dds_dout D i s)) (GAIN_REG q4)))"
proof (intro conjI impI)
  have i: "i < length (GEN_dds s)"
    using assms(13,14) by simp
  show "slice32 i (dds_dout_o (run D [q0, q1, q2, q3, q4, q5] s)) =
           concat16 (bits_30_15 (signed_mult (bits_31_16 (dds_dout D i s)) (GAIN_REG q4)))
                    (bits_30_15 (signed_mult (bits_15_0 (dds_dout D i s)) (GAIN_REG q4)))"
    by (rule six_ticks_output[OF assms(7-12) i assms(15)])
  {
    assume v: "dds_tvalid_r s"
    show "slice32 i (dds_dout_o (run D (p1 # mid @ [q0, q1, q2, q3, q4, q5]) s)) =
           (let smp = quadrant_sample (phase_acc (dds_i (GEN_dds s ! i))
                                       + ucast (slice72 i (dds_ctrl_int_r s)))
            in concat16 (bits_30_15 (signed_mult (bits_31_16 smp) (GAIN_REG q4)))
                        (bits_30_15 (signed_mult (bits_15_0 smp) (GAIN_REG q4))))"
      by (rule sixteen_ticks_output[OF assms(1,2) v assms(4-12) i assms(15,16)])
  }
  let ?s1 = "tick D p0 s"
  have i1: "i < length (GEN_dds ?s1)"
    using i by (simp add: length_GEN_dds_tick)
  have v1: "dds_tvalid_r ?s1"
    by (rule dds_tvalid_r_tick[OF assms(3)])
  have lat1: "length (dds_dout_latency_reg_i (GEN_dds ?s1 ! i)) = latency_reg_N"
    by (rule latency_length_tick[OF i assms(15)])
  have o1: "dds_i (GEN_dds ?s1 ! i) =
            ref_dds_next (dds_tvalid_r s) (slice72 i (dds_ctrl_int_r s)) (dds_i (GEN_dds s ! i))"
    by (simp add: dds_i_tick[OF i] assms(1))
  have pl1: "length (pipe (dds_i (GEN_dds ?s1 ! i))) = 10"
    using assms(16) by (auto simp add: o1 ref_dds_next_def Let_def)
  have c1: "slice72 i (dds_ctrl_int_r ?s1) =
            slice72 i (phase_ctrl_out D (rstn p0) (PINC_REG p0) (WE_REG p0) (phase_ctrl_i s))"
    using assms(3) by (simp add: tick_def dds_ctrl_int_def slice72_take_bit[OF assms(14)])
  have "slice32 i (dds_dout_o (run D (p1 # mid @ [q0, q1, q2, q3, q4, q5]) ?s1)) =
           (let smp = quadrant_sample (phase_acc (dds_i (GEN_dds ?s1 ! i))
                                       + ucast (slice72 i (dds_ctrl_int_r ?s1)))
            in concat16 (bits_30_15 (signed_mult (bits_31_16 smp) (GAIN_REG q4)))
                        (bits_30_15 (signed_mult (bits_15_0 smp) (GAIN_REG q4))))"
    by (rule sixteen_ticks_output[OF assms(1,2) v1 assms(4-12) i1 lat1 pl1])
  then show "slice32 i (dds_dout_o (run D (p0 # p1 # mid @ [q0, q1, q2, q3, q4, q5]) s)) =
           (let acc = phase_acc (ref_dds_next (dds_tvalid_r s) (slice72 i (dds_ctrl_int_r s))
                                   (dds_i (GEN_dds s ! i)));
                word = slice72 i (phase_ctrl_out D (rstn p0) (PINC_REG p0) (WE_REG p0)
                                    (phase_ctrl_i s));
                smp = quadrant_sample (acc + ucast word)
            in concat16 (bits_30_15 (signed_mult (bits_31_16 smp) (GAIN_REG q4)))
                        (bits_30_15 (signed_mult (bits_15_0 smp) (GAIN_REG q4))))"
    by (simp only: run.simps Let_def o1 c1)
qed

text \<open>
  In the steady state of the reference instance the control word of cycle 0 is the held
  increment \<open>0x10000000\<close> and the output word of channel 0 seventeen edges later is
  \<open>0x3FFF0000\<close>. In the state that differs only in the held increment
  (\<open>0x50000000\<close>), the output word is the same after sixteen edges, \<open>0x00003FFF\<close>,
  and differs after seventeen, \<open>0x0000C000\<close>.
\<close>

theorem fixed_latencies_witness:
  "dds_next (ref_design 2) = ref_dds_next \<and> dds_out (ref_design 2) = ref_dds_out \<and>
   rstn (operate 0x10000000 0x4000 False) \<and>
   list_all rstn (replicate 9 (operate 0x10000000 0x4000 False)) \<and>
   length (replicate 9 (operate 0x10000000 0x4000 False)) = 9 \<and>
   length (GEN_dds ref_steady) = N_DDS (ref_design 2) \<and>
   0 < N_DDS (ref_design 2) \<and>
   length (dds_dout_latency_reg_i (GEN_dds ref_steady ! 0)) = latency_reg_N \<and>
   length (pipe (dds_i (GEN_dds ref_steady ! 0))) = 10 \<and>
   dds_tvalid_r ref_steady \<and>
   slice32 0 (dds_dout_o (run (ref_design 2)
      (operate 0x10000000 0x4000 False # operate 0x10000000 0x4000 False #
       replicate 9 (operate 0x10000000 0x4000 False) @
       [operate 0x10000000 0x4000 False, operate 0x10000000 0x4000 False,
        operate 0x10000000 0x4000 False, operate 0x10000000 0x4000 False,
        operate 0x10000000 0x4000 False, operate 0x10000000 0x4000 False])
      ref_steady)) = 0x3FFF0000 \<and>
   slice32 0 (dds_dout_o (run (ref_design 2)
      (operate 0x10000000 0x4000 False # operate 0x10000000 0x4000 False #
       replicate 9 (operate 0x10000000 0x4000 False) @
       [operate 0x10000000 0x4000 False, operate 0x10000000 0x4000 False,
        operate 0x10000000 0x4000 False, operate 0x10000000 0x4000 False,
        operate 0x10000000 0x4000 False, operate 0x10000000 0x4000 False])
      (ref_steady\<lparr>phase_ctrl_i := 0x50000000\<rparr>))) = 0x0000C000 \<and>
   slice32 0 (dds_dout_o (run (ref_design 2)
      (operate 0x10000000 0x4000 False #
       replicate 9 (operate 0x10000000 0x4000 False) @
       [operate 0x10000000 0x4000 False, operate 0x10000000 0x4000 False,
        operate 0x10000000 0x4000 False, operate 0x10000000 0x4000 False,
        operate 0x10000000 0x4000 False, operate 0x10000000 0x4000 False])
      ref_steady)) = 0x00003FFF \<and>
   slice32 0 (dds_dout_o (run (ref_design 2)
      (operate 0x10000000 0x4000 False #
       replicate 9 (operate 0x10000000 0x4000 False) @
       [operate 0x10000000 0x4000 False, operate 0x10000000 0x4000 False,
        operate 0x10000000 0x4000 False, operate 0x10000000 0x4000 False,
        operate 0x10000000 0x4000 False, operate 0x10000000 0x4000 False])
      (ref_steady\<lparr>phase_ctrl_i := 0x50000000\<rparr>))) = 0x00003FFF \<and>
   slice32 0 (dds_dout_o (run (ref_design 2)
       [operate 0x10000000 0x4000 False, operate 0x10000000 0x4000 False,
        operate 0x10000000 0x4000 False, operate 0x10000000 0x4000 False,
        operate 0x10000000 0x4000 False, operate 0x10000000 0x4000 False]
      ref_steady)) = 0x0000C000"
proof -
  let ?D = "ref_design 2"
  let ?op = "operate 0x10000000 0x4000 False"
  let ?mid = "replicate 9 ?op"
  let ?sB = "ref_steady\<lparr>phase_ctrl_i := 0x50000000\<rparr>"
  have d1: "dds_next ?D = ref_dds_next" and d2: "dds_out ?D = ref_dds_out"
    by (simp_all add: ref_design_def)
  have r: "rstn ?op"
    by (simp add: operate_def)
  have m: "\<forall>p\<in>set ?mid. rstn p"
    using r by simp
  have m': "list_all rstn ?mid"
    using r by (simp add: list_all_iff)
  have lm: "length ?mid = 9"
    by simp
  have n: "length (GEN_dds ref_steady) = N_DDS ?D"
    and nB: "length (GEN_dds ?sB) = N_DDS ?D"
    by (simp_all add: ref_steady_def ref_design_def)
  have i: "0 < N_DDS ?D"
    by (simp add: ref_design_def)
  have l: "length (dds_dout_latency_reg_i (GEN_dds ref_steady ! 0)) = latency_reg_N"
    and lB: "length (dds_dout_latency_reg_i (GEN_dds ?sB ! 0)) = latency_reg_N"
    by (simp_all add: ref_steady_def latency_reg_N_def replicate_2)
  have pl: "length (pipe (dds_i (GEN_dds ref_steady ! 0))) = 10"
    and plB: "length (pipe (dds_i (GEN_dds ?sB ! 0))) = 10"
    by (simp_all add: ref_steady_def replicate_2)
  have v: "dds_tvalid_r ref_steady" and vB: "dds_tvalid_r ?sB"
    by (simp_all add: ref_steady_def)
  note tA = fixed_latencies[OF d1 d2 r r m lm r r r r r r n i l pl]
  note tB = fixed_latencies[OF d1 d2 r r m lm r r r r r r nB i lB plB]
  have a17: "slice32 0 (dds_dout_o (run ?D (?op # ?op # ?mid @ [?op, ?op, ?op, ?op, ?op, ?op])
               ref_steady)) = 0x3FFF0000"
    by (rule trans[OF tA[THEN conjunct1]])
       (simp add: ref_steady_def ref_eval ref_lists)
  have b17: "slice32 0 (dds_dout_o (run ?D (?op # ?op # ?mid @ [?op, ?op, ?op, ?op, ?op, ?op])
               ?sB)) = 0x0000C000"
    by (rule trans[OF tB[THEN conjunct1]])
       (simp add: ref_steady_def ref_eval ref_lists)
  have a16: "slice32 0 (dds_dout_o (run ?D (?op # ?mid @ [?op, ?op, ?op, ?op, ?op, ?op])
               ref_steady)) = 0x00003FFF"
    by (rule trans[OF tA[THEN conjunct2, THEN conjunct1, THEN mp, OF v]])
       (simp add: ref_steady_def ref_eval ref_lists)
  have b16: "slice32 0 (dds_dout_o (run ?D (?op # ?mid @ [?op, ?op, ?op, ?op, ?op, ?op])
               ?sB)) = 0x00003FFF"
    by (rule trans[OF tB[THEN conjunct2, THEN conjunct1, THEN mp, OF vB]])
       (simp add: ref_steady_def ref_eval ref_lists)
  have a6: "slice32 0 (dds_dout_o (run ?D [?op, ?op, ?op, ?op, ?op, ?op] ref_steady))
              = 0x0000C000"
    by (rule trans[OF tA[THEN conjunct2, THEN conjunct2]])
       (simp add: ref_steady_def ref_eval ref_lists)
  show ?thesis
    using d1 d2 r m' lm n i l pl v a17 b17 a16 b16 a6 by blast
qed

text \<open>
  C2 as stated fails for the gain: a change of \<open>GAIN_REG\<close> is visible at the output two
  cycles later, not after the latency of the whole pipeline. Two runs from the steady
  state of the reference instance whose port values differ only in \<open>GAIN_REG\<close> at the
  first clock edge (\<open>0x4000\<close> against \<open>0x2000\<close>) have different output words after
  the second edge.
\<close>

theorem fixed_latencies_counterexample:
  "slice32 0 (dds_dout_o (run (ref_design 2)
      [operate 0x10000000 0x4000 False, operate 0x10000000 0x4000 False] ref_steady))
     = 0x3FFF0000 \<and>
   slice32 0 (dds_dout_o (run (ref_design 2)
      [operate 0x10000000 0x2000 False, operate 0x10000000 0x4000 False] ref_steady))
     = 0x1FFF0000 \<and>
   (0x3FFF0000 :: 32 word) \<noteq> 0x1FFF0000"
  by (simp add: ref_steady_def ref_eval ref_lists)

text \<open>
  C3, as the code has it, with the phase controller modelled from the specification.
  While reset is asserted, after every clock edge the holding register of the phase
  controller, the registers of \<open>dds_top\<close> (\<open>dds_tvalid_r\<close>, \<open>dds_ctrl_int_r\<close>,
  \<open>prod_real_r1\<close>, \<open>prod_imag_r1\<close>, \<open>prod_r1\<close>) and the stages of the latency
  registers are zero, and so is the output bus. The oscillators have no reset port: at
  every clock edge, with or without reset, their state advances by their own next-state
  function of \<open>dds_tvalid_r\<close> and the control word.
\<close>

theorem reset_clears_registers:
  fixes D :: "(32 word, 'o) design"
  shows
  "(phase_ctrl_next D = ref_phase_ctrl_next \<and> ps \<noteq> [] \<and> (\<forall>p\<in>set ps. \<not> rstn p) \<longrightarrow>
      phase_ctrl_i (run D ps s) = 0 \<and>
      dds_tvalid_r (run D ps s) = False \<and>
      dds_ctrl_int_r (run D ps s) = 0 \<and>
      list_all (\<lambda>c. dds_dout_latency_reg_i c = replicate latency_reg_N 0 \<and>
                     prod_real_r1 c = 0 \<and> prod_imag_r1 c = 0 \<and> prod_r1 c = 0)
        (GEN_dds (run D ps s)) \<and>
      dds_dout_o (run D ps s) = 0) \<and>
   (i < length (GEN_dds s) \<longrightarrow>
      dds_i (GEN_dds (tick D q s) ! i) =
        dds_next D (dds_tvalid_r s) (slice72 i (dds_ctrl_int_r s)) (dds_i (GEN_dds s ! i)))"
proof (intro conjI impI)
  assume i: "i < length (GEN_dds s)"
  show "dds_i (GEN_dds (tick D q s) ! i) =
        dds_next D (dds_tvalid_r s) (slice72 i (dds_ctrl_int_r s)) (dds_i (GEN_dds s ! i))"
    by (rule dds_i_tick[OF i])
next
  assume a: "phase_ctrl_next D = ref_phase_ctrl_next \<and> ps \<noteq> [] \<and> (\<forall>p\<in>set ps. \<not> rstn p)"
  then obtain qs p where ps: "ps = qs @ [p]"
    by (cases ps rule: rev_cases) auto
  with a have p: "\<not> rstn p" by simp
  have r: "run D ps s = tick D p (run D qs s)"
    by (simp add: ps run_snoc)
  show "phase_ctrl_i (run D ps s) = 0"
    using a p by (simp add: ps phase_ctrl_i_run_snoc ref_phase_ctrl_next_def)
  show "dds_tvalid_r (run D ps s) = False"
    unfolding r by (rule reset_tick_clears(1)[OF p])
  show "dds_ctrl_int_r (run D ps s) = 0"
    unfolding r by (rule reset_tick_clears(2)[OF p])
  show "list_all (\<lambda>c. dds_dout_latency_reg_i c = replicate latency_reg_N 0 \<and>
                     prod_real_r1 c = 0 \<and> prod_imag_r1 c = 0 \<and> prod_r1 c = 0)
        (GEN_dds (run D ps s))"
    unfolding r by (rule reset_tick_clears(3)[OF p])
  show "dds_dout_o (run D ps s) = 0"
    unfolding r by (rule reset_tick_clears(4)[OF p])
qed

theorem reset_clears_registers_witness:
  "phase_ctrl_next (ref_design 2) = ref_phase_ctrl_next \<and>
   [in_reset, in_reset] \<noteq> [] \<and> \<not> rstn in_reset \<and>
   phase_ctrl_i ref_steady = 0x10000000 \<and>
   phase_ctrl_i (run (ref_design 2) [in_reset, in_reset] ref_steady) = 0 \<and>
   dds_tvalid_r (run (ref_design 2) [in_reset, in_reset] ref_steady) = False \<and>
   dds_ctrl_int_r (run (ref_design 2) [in_reset, in_reset] ref_steady) = 0 \<and>
   list_all (\<lambda>c. dds_dout_latency_reg_i c = replicate latency_reg_N 0 \<and>
                  prod_real_r1 c = 0 \<and> prod_imag_r1 c = 0 \<and> prod_r1 c = 0)
     (GEN_dds (run (ref_design 2) [in_reset, in_reset] ref_steady)) \<and>
   dds_dout_o (run (ref_design 2) [in_reset, in_reset] ref_steady) = 0 \<and>
   0 < length (GEN_dds ref_steady) \<and>
   dds_i (GEN_dds (tick (ref_design 2) in_reset ref_steady) ! 0) =
     dds_next (ref_design 2) (dds_tvalid_r ref_steady)
       (slice72 0 (dds_ctrl_int_r ref_steady)) (dds_i (GEN_dds ref_steady ! 0))"
proof -
  have h0: "phase_ctrl_next (ref_design 2) = ref_phase_ctrl_next"
    by (simp add: ref_design_def)
  have h1: "[in_reset, in_reset] \<noteq> []"
    by simp
  have h2: "\<not> rstn in_reset"
    by (simp add: in_reset_def)
  have h3: "\<forall>p\<in>set [in_reset, in_reset]. \<not> rstn p"
    using h2 by simp
  have h4: "0 < length (GEN_dds ref_steady)"
    by (simp add: ref_steady_def)
  have v: "phase_ctrl_i ref_steady = 0x10000000"
    by (simp add: ref_steady_def)
  show ?thesis
    using h0 h1 h2 h3 h4 v
      reset_clears_registers[of "ref_design 2" "[in_reset, in_reset]" ref_steady 0 in_reset]
    by blast
qed

text \<open>
  C3 as stated fails for the oscillator registers. In the steady state of the reference
  instance, one cycle of reset advances the phase accumulator of channel 0 from
  \<open>0x20000000\<close> to \<open>0x30000000\<close> and shifts its pipeline; further cycles of reset
  hold these values. Neither the accumulator nor the oscillator output becomes zero.
\<close>

theorem reset_clears_registers_counterexample:
  "\<not> rstn in_reset \<and>
   phase_acc (dds_i (GEN_dds (run (ref_design 2) [in_reset] ref_steady) ! 0)) = 0x30000000 \<and>
   phase_acc (dds_i (GEN_dds (run (ref_design 2) [in_reset, in_reset] ref_steady) ! 0))
     = 0x30000000 \<and>
   (0x30000000 :: 32 word) \<noteq> 0 \<and>
   dds_dout (ref_design 2) 0 (run (ref_design 2) [in_reset] ref_steady) = 0x00008001 \<and>
   dds_dout (ref_design 2) 0 (run (ref_design 2) [in_reset, in_reset] ref_steady) = 0x00008001 \<and>
   (0x00008001 :: 32 word) \<noteq> 0"
  by (simp add: ref_steady_def ref_eval ref_lists)



text \<open>
  C6. After a clock edge with reset asserted followed by \<open>n\<close> edges with reset
  deasserted, the output \<open>dds_dout_la\<close> of the latency register of channel \<open>i\<close> is
  zero if \<open>n < 4\<close> and otherwise the oscillator output \<open>dds_dout[i]\<close> of the cycle four
  edges earlier, unchanged.
\<close>

theorem latency_aligner_delay:
  assumes "\<not> rstn r" and "\<forall>p\<in>set ps. rstn p" and "i < length (GEN_dds s)"
  shows "dds_dout_la (GEN_dds (run D ps (tick D r s)) ! i) =
           (if length ps < 4 then 0
            else dds_dout D i (run D (take (length ps - 4) ps) (tick D r s)))"
proof -
  let ?s0 = "tick D r s"
  let ?ds = "map (dds_dout D i) (states D ps ?s0)"
  have i0: "i < length (GEN_dds ?s0)"
    using assms(3) by (simp add: length_GEN_dds_tick)
  have z: "dds_dout_latency_reg_i (GEN_dds ?s0 ! i) = replicate latency_reg_N 0"
    using assms(1) by (simp add: latency_reg_tick_channel[OF assms(3)] latency_reg_tick_def)
  have n: "length ?ds = length ps"
    by (simp add: length_states)
  have "dds_dout_latency_reg_i (GEN_dds (run D ps ?s0) ! i) =
          take latency_reg_N (rev ?ds @ replicate latency_reg_N 0)"
    using latency_regs_run[OF assms(2) i0, of D] z by simp
  then have "dds_dout_la (GEN_dds (run D ps ?s0) ! i) =
          last (take 4 (rev ?ds @ replicate 4 0))"
    by (simp add: dds_dout_la_def latency_reg_dout_def latency_reg_N_def)
  also have "\<dots> = (rev ?ds @ replicate 4 0) ! 3"
    by (rule last_take_4) simp
  also have "\<dots> = (if length ps < 4 then 0 else ?ds ! (length ps - 4))"
  proof (cases "length ps < 4")
    case True
    then show ?thesis by (simp add: nth_append length_states)
  next
    case False
    then have "rev ?ds ! 3 = ?ds ! (length ?ds - Suc 3)"
      by (intro rev_nth) (simp add: length_states)
    with False show ?thesis by (simp add: nth_append length_states)
  qed
  also have "\<dots> = (if length ps < 4 then 0
                   else dds_dout D i (run D (take (length ps - 4) ps) ?s0))"
  proof (cases "length ps < 4")
    case True
    then show ?thesis by simp
  next
    case False
    then have k: "length ps - 4 < length ps" by simp
    have "?ds ! (length ps - 4) = dds_dout D i (states D ps ?s0 ! (length ps - 4))"
      using k by (simp add: length_states)
    with False show ?thesis by (simp add: nth_states[OF k])
  qed
  finally show ?thesis .
qed

text \<open>
  From the steady state of the reference instance: two edges after the reset edge the
  output of the latency register is zero; five edges after it, it is the oscillator
  output of the cycle after the first of them, \<open>0x00008001\<close>.
\<close>

theorem latency_aligner_delay_witness:
  "\<not> rstn in_reset \<and> rstn (operate 0x10000000 0x4000 True) \<and>
   0 < length (GEN_dds ref_steady) \<and>
   dds_dout_la (GEN_dds (run (ref_design 2)
       [operate 0x10000000 0x4000 True, operate 0x10000000 0x4000 True]
       (tick (ref_design 2) in_reset ref_steady)) ! 0) = 0 \<and>
   dds_dout_la (GEN_dds (run (ref_design 2)
       [operate 0x10000000 0x4000 True, operate 0x10000000 0x4000 True,
        operate 0x10000000 0x4000 True, operate 0x10000000 0x4000 True,
        operate 0x10000000 0x4000 True]
       (tick (ref_design 2) in_reset ref_steady)) ! 0) =
     dds_dout (ref_design 2) 0
       (run (ref_design 2) [operate 0x10000000 0x4000 True]
          (tick (ref_design 2) in_reset ref_steady)) \<and>
   dds_dout (ref_design 2) 0
       (run (ref_design 2) [operate 0x10000000 0x4000 True]
          (tick (ref_design 2) in_reset ref_steady)) = 0x00008001"
proof -
  have r: "\<not> rstn in_reset"
    by (simp add: in_reset_def)
  have a: "rstn (operate 0x10000000 0x4000 True)"
    by (simp add: operate_def)
  have i: "0 < length (GEN_dds ref_steady)"
    by (simp add: ref_steady_def)
  have h2: "\<forall>p\<in>set [operate 0x10000000 0x4000 True, operate 0x10000000 0x4000 True]. rstn p"
    using a by simp
  have h5: "\<forall>p\<in>set [operate 0x10000000 0x4000 True, operate 0x10000000 0x4000 True,
        operate 0x10000000 0x4000 True, operate 0x10000000 0x4000 True,
        operate 0x10000000 0x4000 True]. rstn p"
    using a by simp
  have v: "dds_dout (ref_design 2) 0
       (run (ref_design 2) [operate 0x10000000 0x4000 True]
          (tick (ref_design 2) in_reset ref_steady)) = 0x00008001"
    by (simp add: ref_steady_def ref_eval ref_lists)
  have t2: "dds_dout_la (GEN_dds (run (ref_design 2)
       [operate 0x10000000 0x4000 True, operate 0x10000000 0x4000 True]
       (tick (ref_design 2) in_reset ref_steady)) ! 0) = 0"
    using latency_aligner_delay[OF r h2 i, of "ref_design 2"] by simp
  have t5: "dds_dout_la (GEN_dds (run (ref_design 2)
       [operate 0x10000000 0x4000 True, operate 0x10000000 0x4000 True,
        operate 0x10000000 0x4000 True, operate 0x10000000 0x4000 True,
        operate 0x10000000 0x4000 True]
       (tick (ref_design 2) in_reset ref_steady)) ! 0) =
     dds_dout (ref_design 2) 0
       (run (ref_design 2) [operate 0x10000000 0x4000 True]
          (tick (ref_design 2) in_reset ref_steady))"
    using latency_aligner_delay[OF r h5 i, of "ref_design 2"] by simp
  show ?thesis
    using r a i v t2 t5 by blast
qed

text \<open>
  C7. Two runs of the module that agree, at every clock edge, on \<open>rstn\<close> and on
  \<open>GAIN_REG\<close>, in which the same control words \<open>dds_ctrl_int_r[i*72 +: 72]\<close> are
  presented to oscillator \<open>i\<close> in every cycle, and that start with the same value of
  \<open>dds_tvalid_r\<close> and the same registers of channel \<open>i\<close>, have the same output slice
  \<open>dds_dout_o[i*32 +: 32]\<close> after every clock edge, whatever \<open>PINC_REG\<close>, \<open>WE_REG\<close>,
  the state of \<open>phase_ctrl_i\<close> and the registers and control words of the other channels
  are in the two runs.
\<close>

theorem channel_independence:
  assumes "map rstn ps1 = map rstn ps2"
    and "map GAIN_REG ps1 = map GAIN_REG ps2"
    and "dds_ctrl_stream D i ps1 s1 = dds_ctrl_stream D i ps2 s2"
    and "dds_tvalid_r s1 = dds_tvalid_r s2"
    and "i < length (GEN_dds s1)" and "i < length (GEN_dds s2)"
    and "GEN_dds s1 ! i = GEN_dds s2 ! i"
  shows "map (slice32 i) (frames D ps1 s1) = map (slice32 i) (frames D ps2 s2) \<and>
         GEN_dds (run D ps1 s1) ! i = GEN_dds (run D ps2 s2) ! i"
  using assms
proof (induction ps1 arbitrary: ps2 s1 s2)
  case Nil
  then show ?case by simp
next
  case (Cons p1 qs1)
  from Cons.prems(1) obtain p2 qs2 where ps2: "ps2 = p2 # qs2"
    by (cases ps2) auto
  have e1: "rstn p1 = rstn p2" "map rstn qs1 = map rstn qs2"
    using Cons.prems(1) ps2 by simp_all
  have e2: "GAIN_REG p1 = GAIN_REG p2" "map GAIN_REG qs1 = map GAIN_REG qs2"
    using Cons.prems(2) ps2 by simp_all
  have e3: "slice72 i (dds_ctrl_int_r s1) = slice72 i (dds_ctrl_int_r s2)"
    "dds_ctrl_stream D i qs1 (tick D p1 s1) = dds_ctrl_stream D i qs2 (tick D p2 s2)"
    using Cons.prems(3) ps2 by (simp_all add: dds_ctrl_stream_def)
  note step = tick_channel_agree[OF e1(1) e2(1) e3(1) Cons.prems(4-7), of D]
  have l1: "i < length (GEN_dds (tick D p1 s1))" and l2: "i < length (GEN_dds (tick D p2 s2))"
    using Cons.prems(5,6) by (simp_all add: length_GEN_dds_tick)
  have w: "slice32 i (dds_dout_o (tick D p1 s1)) = slice32 i (dds_dout_o (tick D p2 s2))"
    by (simp only: slice32_dds_dout_o[OF l1] slice32_dds_dout_o[OF l2] step(1))
  from Cons.IH[OF e1(2) e2(2) e3(2) step(2) l1 l2 step(1)] w
  show ?case by (simp add: ps2)
qed

theorem channel_independence_witness:
  "map rstn [operate 0x10000000 0x4000 False, operate 0x10000000 0x2000 False]
     = map rstn [operate 0x10000000 0x4000 False, operate 0x00000123 0x2000 True] \<and>
   map GAIN_REG [operate 0x10000000 0x4000 False, operate 0x10000000 0x2000 False]
     = map GAIN_REG [operate 0x10000000 0x4000 False, operate 0x00000123 0x2000 True] \<and>
   dds_ctrl_stream (ref_design 2) 0
       [operate 0x10000000 0x4000 False, operate 0x10000000 0x2000 False] ref_steady
     = dds_ctrl_stream (ref_design 2) 0
       [operate 0x10000000 0x4000 False, operate 0x00000123 0x2000 True] ref_other \<and>
   dds_tvalid_r ref_steady = dds_tvalid_r ref_other \<and>
   0 < length (GEN_dds ref_steady) \<and> 0 < length (GEN_dds ref_other) \<and>
   GEN_dds ref_steady ! 0 = GEN_dds ref_other ! 0 \<and>
   GEN_dds ref_steady ! 1 \<noteq> GEN_dds ref_other ! 1 \<and>
   slice72 1 (dds_ctrl_int_r ref_steady) \<noteq> slice72 1 (dds_ctrl_int_r ref_other) \<and>
   map (slice32 0) (frames (ref_design 2)
       [operate 0x10000000 0x4000 False, operate 0x10000000 0x2000 False] ref_steady)
     = map (slice32 0) (frames (ref_design 2)
       [operate 0x10000000 0x4000 False, operate 0x00000123 0x2000 True] ref_other) \<and>
   GEN_dds (run (ref_design 2)
       [operate 0x10000000 0x4000 False, operate 0x10000000 0x2000 False] ref_steady) ! 0
     = GEN_dds (run (ref_design 2)
       [operate 0x10000000 0x4000 False, operate 0x00000123 0x2000 True] ref_other) ! 0"
proof -
  have h1: "map rstn [operate 0x10000000 0x4000 False, operate 0x10000000 0x2000 False]
     = map rstn [operate 0x10000000 0x4000 False, operate 0x00000123 0x2000 True]"
    by (simp add: operate_def)
  have h2: "map GAIN_REG [operate 0x10000000 0x4000 False, operate 0x10000000 0x2000 False]
     = map GAIN_REG [operate 0x10000000 0x4000 False, operate 0x00000123 0x2000 True]"
    by (simp add: operate_def)
  have h3: "dds_ctrl_stream (ref_design 2) 0
       [operate 0x10000000 0x4000 False, operate 0x10000000 0x2000 False] ref_steady
     = dds_ctrl_stream (ref_design 2) 0
       [operate 0x10000000 0x4000 False, operate 0x00000123 0x2000 True] ref_other"
    by (simp add: dds_ctrl_stream_def ref_steady_def ref_other_def ref_eval ref_lists)
  have h4: "dds_tvalid_r ref_steady = dds_tvalid_r ref_other"
    by (simp add: ref_steady_def ref_other_def)
  have h5: "0 < length (GEN_dds ref_steady)" and h6: "0 < length (GEN_dds ref_other)"
    by (simp_all add: ref_steady_def ref_other_def)
  have h7: "GEN_dds ref_steady ! 0 = GEN_dds ref_other ! 0"
    by (simp add: ref_other_def)
  have d1: "GEN_dds ref_steady ! 1 \<noteq> GEN_dds ref_other ! 1"
    by (simp add: ref_steady_def ref_other_def replicate_2)
  have d2: "slice72 1 (dds_ctrl_int_r ref_steady) \<noteq> slice72 1 (dds_ctrl_int_r ref_other)"
    by (simp add: ref_steady_def ref_other_def slice72_def drop_bit_eq_div)
  show ?thesis
    using h1 h2 h3 h4 h5 h6 h7 d1 d2
      channel_independence[OF h1 h2 h3 h4 h5 h6 h7]
    by blast
qed

end
